theory Spec2Isabelle
  imports Complex_Main "HOL-Library.AList" "HOL-Library.Char_ord" "HOL-Library.List_Lexorder"
    "HOL-Library.Product_Lexorder"
begin

section \<open>The LiteX standalone USB core generator (litex\_gen.py)\<close>

text \<open>
  The generator assembles a small SoC around a USB device controller: a platform with a
  static pin catalog, a clock/reset generator, the base SoC services, an optional
  wishbone attachment exported as pins, one exported pin per interrupt source, and the
  commit of the emitted design to a build directory.

  What is embedded from \<^verbatim>\<open>litex_gen.py\<close>: the catalog \<^verbatim>\<open>_io\<close>, \<^verbatim>\<open>Platform\<close> with
  \<^verbatim>\<open>Platform.build\<close>, \<^verbatim>\<open>_CRG.__init__\<close>, the class body and \<^verbatim>\<open>__init__\<close> of
  \<^verbatim>\<open>LiteXCore\<close>, and \<^verbatim>\<open>soc_argdict\<close>. The packages the file imports (migen, litex,
  valentyusb, os) are not part of the repository: their operations are either taken as
  parameters (record \<open>ext\<close>) or modelled from the specification, each marked so.
  The call \<^verbatim>\<open>print(kwargs)\<close> only writes to the console and is left out.
\<close>

subsection \<open>Values and errors\<close>

datatype pyval = VStr string | VInt int

text \<open>A keyword dictionary, in insertion order; a key is looked up with \<open>map_of\<close>.\<close>

type_synonym kwargs = "(string \<times> pyval) list"

datatype error =
    KeyError string
  | AttributeError string
  | UnknownPin string nat
  | DuplicatePin string nat
  | FabricFull
  | UnsupportedBus string
  | OSError

text \<open>Sequencing of steps that may raise: the first error ends the computation.\<close>

definition and_then :: "error + 'a \<Rightarrow> ('a \<Rightarrow> error + 'b) \<Rightarrow> error + 'b" where
  "and_then m f = (case m of Inl e \<Rightarrow> Inl e | Inr x \<Rightarrow> f x)"

subsection \<open>Signals and combinational statements\<close>

text \<open>
  A signal of the design is identified by where it comes from: a pad handed out by the
  platform (group name, index, sub-signal name; the empty name for a plain group), the
  clock or reset of a clock domain, the interrupt line \<^verbatim>\<open>module.ev.irq\<close> of the
  module stored under an attribute name, or a wire of the wishbone interface.
  \<open>Eq lhs rhs\<close> is the statement \<^verbatim>\<open>lhs.eq(rhs)\<close>: \<open>rhs\<close> drives \<open>lhs\<close>.
\<close>

datatype signal =
    Pad string nat string
  | CdClk string
  | CdRst string
  | EvIrq string
  | WbSig string

datatype stmt = Eq signal signal

fun lhs :: "stmt \<Rightarrow> signal" where
  "lhs (Eq l r) = l"

fun rhs :: "stmt \<Rightarrow> signal" where
  "rhs (Eq l r) = r"

text \<open>The signals that drive \<open>s\<close> in a list of statements.\<close>

definition drivers :: "stmt list \<Rightarrow> signal \<Rightarrow> signal list" where
  "drivers c s = map rhs (filter (\<lambda>st. lhs st = s) c)"

text \<open>A signal is mentioned by a statement list when it stands on either side.\<close>

definition mentions :: "stmt list \<Rightarrow> signal \<Rightarrow> bool" where
  "mentions c s = list_ex (\<lambda>st. lhs st = s \<or> rhs st = s) c"

subsection \<open>The pin catalog\<close>

datatype pins = Pins nat

datatype constr = Plain pins | Subsignal string pins

type_synonym resource = "string \<times> nat \<times> constr list"

definition io :: "resource list" where
  "io = [
    (''sys_clk'', 0, [Plain (Pins 1)]),
    (''sys_rst'', 0, [Plain (Pins 1)]),
    (''usb'', 0,
      [Subsignal ''d_p'' (Pins 1),
       Subsignal ''d_n'' (Pins 1),
       Subsignal ''pullup'' (Pins 1)]),
    (''clk12'', 0, [Plain (Pins 1)]),
    (''clk48'', 0, [Plain (Pins 1)])
  ]"

definition ident :: "resource \<Rightarrow> string \<times> nat" where
  "ident r = (fst r, fst (snd r))"

subsection \<open>The platform\<close>

text \<open>
  Modelled from the spec: \<^verbatim>\<open>GenericPlatform\<close> (its \<^verbatim>\<open>__init__\<close>, \<^verbatim>\<open>request\<close> and
  \<^verbatim>\<open>add_extension\<close>) belongs to the litex package and is not in the repository. The
  spec's Platform owns the pin groups, catalog first and then the groups registered
  during composition; \<open>request\<close> resolves an identity or fails with \<open>UnknownPin\<close>;
  \<open>add_group\<close> fails with \<open>DuplicatePin\<close> when the identity is already present and
  registers the group otherwise. \<open>requested\<close> logs the identities handed out, in the
  order of the calls: these are the pads of the emitted design.
\<close>

record platform =
  groups :: "resource list"
  requested :: "(string \<times> nat) list"

definition Platform :: "resource list \<Rightarrow> platform" where
  "Platform cat = \<lparr>groups = cat, requested = []\<rparr>"

definition request :: "platform \<Rightarrow> string \<Rightarrow> nat \<Rightarrow> error + (platform \<times> resource)" where
  "request p n i =
     (case find (\<lambda>r. ident r = (n, i)) (groups p) of
        None \<Rightarrow> Inl (UnknownPin n i)
      | Some r \<Rightarrow> Inr (p\<lparr>requested := requested p @ [(n, i)]\<rparr>, r))"

definition add_group :: "platform \<Rightarrow> resource \<Rightarrow> error + platform" where
  "add_group p g =
     (if ident g \<in> set (map ident (groups p))
      then Inl (DuplicatePin (fst g) (fst (snd g)))
      else Inr (p\<lparr>groups := groups p @ [g]\<rparr>))"

text \<open>\<^verbatim>\<open>add_extension\<close> takes a list of groups and registers them one after the other.\<close>

fun add_extension :: "platform \<Rightarrow> resource list \<Rightarrow> error + platform" where
  "add_extension p [] = Inr p"
| "add_extension p (g # gs) =
     (case add_group p g of Inl e \<Rightarrow> Inl e | Inr p' \<Rightarrow> add_extension p' gs)"

text \<open>The identities that \<open>request\<close> resolves.\<close>

definition resolvable :: "platform \<Rightarrow> (string \<times> nat) set" where
  "resolvable p = set (map ident (groups p))"

text \<open>
  The wire of a plain group, and the wire of a named sub-signal of a group (an
  attribute of the record that \<^verbatim>\<open>request\<close> returns; a missing one raises).
\<close>

definition pad :: "resource \<Rightarrow> signal" where
  "pad r = Pad (fst r) (fst (snd r)) []"

fun subsignal_names :: "constr list \<Rightarrow> string list" where
  "subsignal_names [] = []"
| "subsignal_names (Plain w # cs) = subsignal_names cs"
| "subsignal_names (Subsignal n w # cs) = n # subsignal_names cs"

definition subpad :: "resource \<Rightarrow> string \<Rightarrow> error + signal" where
  "subpad r f =
     (if f \<in> set (subsignal_names (snd (snd r)))
      then Inr (Pad (fst r) (fst (snd r)) f)
      else Inl (AttributeError f))"

subsection \<open>The clock and reset generator\<close>

text \<open>
  \<^verbatim>\<open>_CRG.__init__\<close>: three clock domains, four requests in the order of the source,
  and six combinational assignments.
\<close>

record crg =
  clock_domains :: "string list"
  crg_comb :: "stmt list"

definition CRG :: "platform \<Rightarrow> error + (platform \<times> crg)" where
  "CRG platform0 =
     and_then (request platform0 ''sys_rst'' 0) (\<lambda>(p1, sys_rst).
     and_then (request p1 ''sys_clk'' 0) (\<lambda>(p2, sys_clk).
     and_then (request p2 ''clk12'' 0) (\<lambda>(p3, clk12).
     and_then (request p3 ''clk48'' 0) (\<lambda>(p4, clk48).
     Inr (p4,
       \<lparr>clock_domains = [''sys'', ''usb_12'', ''usb_48''],
        crg_comb = [
          Eq (CdRst ''sys'') (pad sys_rst),
          Eq (CdClk ''sys'') (pad clk12),
          Eq (CdRst ''usb_12'') (pad sys_rst),
          Eq (CdClk ''usb_12'') (pad clk12),
          Eq (CdRst ''usb_48'') (pad sys_rst),
          Eq (CdClk ''usb_48'') (pad clk48)]\<rparr>)))))"

subsection \<open>The external collaborators\<close>

text \<open>
  A wishbone endpoint is its signal table: the name, the width and the direction of
  each wire, \<open>DIR_M_TO_S\<close> for a wire the master drives and \<open>DIR_S_TO_M\<close> for a wire it
  receives.
\<close>

datatype direction = DIR_M_TO_S | DIR_S_TO_M

type_synonym layout = "(string \<times> nat \<times> direction) list"

datatype interface = Interface layout

text \<open>
  Modelled from the spec: the bus fabric (\<^verbatim>\<open>self.bus\<close> of the litex SoC, not in the
  repository). \<open>add_master\<close> registers a master endpoint and fails with \<open>FabricFull\<close>
  when the fabric's master-slot budget is used up.
\<close>

record fabric =
  masters :: "interface list"
  slots :: nat

definition add_master :: "fabric \<Rightarrow> interface \<Rightarrow> error + fabric" where
  "add_master f m =
     (if length (masters f) < slots f
      then Inr (f\<lparr>masters := masters f @ [m]\<rparr>)
      else Inl FabricFull)"

text \<open>
  What \<^verbatim>\<open>SoCMini.__init__\<close> leaves on the SoC object: the items of the interrupt
  registry \<^verbatim>\<open>self.irq.locs\<close> in insertion order (a dict: the names are distinct),
  the attributes it sets with whether each carries an event interrupt line
  \<^verbatim>\<open>ev.irq\<close>, the bus fabric, and the names already in the CSR space.
\<close>

record base =
  irq_locs :: "(string \<times> int) list"
  base_attrs :: "(string \<times> bool) list"
  base_bus :: fabric
  base_csrs :: "string list"

text \<open>
  The SoC object as the composer builds it: the platform, the clock generator stored
  under \<open>crg\<close>, the pads bound to the USB controller, the attribute table (name, and
  whether the attribute carries \<^verbatim>\<open>ev.irq\<close>; latest assignment first), the bus fabric,
  the names in the CSR space, the SoC's own combinational statements, the clock
  frequency handed to the base services, and the memory map.
\<close>

record soc =
  soc_platform :: platform
  soc_crg :: crg
  soc_usb :: "signal list"
  soc_attrs :: "(string \<times> bool) list"
  soc_bus :: fabric
  soc_csrs :: "string list"
  soc_comb :: "stmt list"
  soc_clk_freq :: int
  mem_map :: "(string \<times> nat) list"

text \<open>
  The collaborators the generator is run against, as parameters: the base SoC services
  as a function of the clock frequency and the keyword arguments (the source also
  hands them the platform, which at that point is always the catalog with the four
  requests of the clock generator; they are taken not to register or request pins),
  the signal table of \<^verbatim>\<open>wishbone.Interface\<close>, the class attribute \<^verbatim>\<open>SoCMini.mem_map\<close>
  as litex declares it, and the emitter \<^verbatim>\<open>get_verilog\<close>. The emitter is a call into
  litex made while the build runs: it sees the SoC with its platform and the name of
  the top module, and it may read the clock of the machine, so it gets the clock
  reading of the run as well.
\<close>

record ext =
  SoCMini_init :: "int \<Rightarrow> kwargs \<Rightarrow> base"
  wishbone_layout :: layout
  SoCMini_mem_map :: "(string \<times> nat) list"
  get_verilog :: "soc \<Rightarrow> string \<Rightarrow> nat \<Rightarrow> string"

text \<open>
  Modelled from the spec: \<^verbatim>\<open>Interface.get_ios\<close> and \<^verbatim>\<open>Interface.connect_to_pads\<close> of
  litex's wishbone module (not in the repository). \<open>get_ios\<close> derives the pin-group
  view of the endpoint's wires, one sub-signal per wire. \<open>connect_to_pads_slave\<close> is
  the call with \<^verbatim>\<open>mode="slave"\<close>: seen from the pins the core is a bus slave, so a wire
  the master endpoint drives is read from its pad, and a wire the endpoint receives
  drives its pad.
\<close>

fun get_ios :: "interface \<Rightarrow> string \<Rightarrow> resource list" where
  "get_ios (Interface l) bus_name =
     [(bus_name, 0, map (\<lambda>(n, w, d). Subsignal n (Pins w)) l)]"

fun connect_to_pads_slave :: "interface \<Rightarrow> resource \<Rightarrow> stmt list" where
  "connect_to_pads_slave (Interface l) pads =
     map (\<lambda>(n, w, d).
           if d = DIR_S_TO_M
           then Eq (Pad (fst pads) (fst (snd pads)) n) (WbSig n)
           else Eq (WbSig n) (Pad (fst pads) (fst (snd pads)) n)) l"

subsection \<open>The SoC composer\<close>

text \<open>
  The arguments of \<^verbatim>\<open>LiteXCore.__init__\<close>, and their defaults.
\<close>

record args =
  sys_clk_freq :: int
  with_pwm :: bool
  with_gpio :: bool
  gpio_width :: int
  with_spi_master :: bool
  spi_master_data_width :: int
  spi_master_clk_freq :: real
  kwargs :: kwargs

definition default_args :: "kwargs \<Rightarrow> args" where
  "default_args kw =
     \<lparr>sys_clk_freq = 100000000,
      with_pwm = False,
      with_gpio = False, gpio_width = 32,
      with_spi_master = False, spi_master_data_width = 8, spi_master_clk_freq = 8000000,
      kwargs = kw\<rparr>"

text \<open>
  \<^verbatim>\<open>getattr(self, name)\<close> followed by \<^verbatim>\<open>module.ev.irq\<close>: the attribute table is
  searched latest assignment first; a missing attribute and an attribute without an
  event line both raise \<open>AttributeError\<close>.
\<close>

definition getattr :: "soc \<Rightarrow> string \<Rightarrow> error + bool" where
  "getattr s n =
     (case map_of (soc_attrs s) n of
        None \<Rightarrow> Inl (AttributeError n)
      | Some has_ev \<Rightarrow> Inr has_ev)"

definition ev_irq :: "bool \<Rightarrow> string \<Rightarrow> error + signal" where
  "ev_irq has_ev n = (if has_ev then Inr (EvIrq n) else Inl (AttributeError ''ev''))"

text \<open>
  The loop of lines 102 to 106, over the sorted items: look the module up, register
  the pin group \<^verbatim>\<open>irq_<name>\<close>, request it, and drive it from the module's
  interrupt line.
\<close>

fun irq_export :: "(string \<times> int) list \<Rightarrow> soc \<Rightarrow> error + soc" where
  "irq_export [] s = Inr s"
| "irq_export ((name, loc) # rest) s =
     and_then (getattr s name) (\<lambda>module.
     and_then (add_extension (soc_platform s) [(''irq_'' @ name, 0, [Plain (Pins 1)])]) (\<lambda>p1.
     and_then (request p1 (''irq_'' @ name) 0) (\<lambda>(p2, irq_pin).
     and_then (ev_irq module name) (\<lambda>irq.
     irq_export rest (s\<lparr>soc_platform := p2, soc_comb := soc_comb s @ [Eq (pad irq_pin) irq]\<rparr>)))))"

text \<open>The branch of lines 95 to 99, taken when the bus is wishbone.\<close>

definition wishbone_master :: "ext \<Rightarrow> soc \<Rightarrow> error + soc" where
  "wishbone_master X s =
     (let wb_bus = Interface (wishbone_layout X) in
      and_then (add_master (soc_bus s) wb_bus) (\<lambda>bus1.
      and_then (add_extension (soc_platform s) (get_ios wb_bus ''wb'')) (\<lambda>p1.
      and_then (request p1 ''wb'' 0) (\<lambda>(p2, wb_pads).
      Inr (s\<lparr>soc_platform := p2, soc_bus := bus1,
             soc_comb := soc_comb s @ connect_to_pads_slave wb_bus wb_pads\<rparr>)))))"

text \<open>
  The class body (line 72) stores 0 under \<^verbatim>\<open>"csr"\<close> in \<^verbatim>\<open>SoCMini.mem_map\<close>.
\<close>

definition LiteXCore_mem_map :: "ext \<Rightarrow> (string \<times> nat) list" where
  "LiteXCore_mem_map X = AList.update ''csr'' 0 (SoCMini_mem_map X)"

text \<open>
  \<^verbatim>\<open>LiteXCore.__init__\<close>. The attribute \<open>crg\<close> is set first, then the attributes of
  the base services, then \<open>usb\<close>. The clock generator has no event line. Modelled
  from the spec: the USB controller (valentyusb, not in the repository) is a black box
  bound to its three pads that exposes an interrupt line, and \<^verbatim>\<open>add_csr\<close> enters its
  name in the CSR space.
\<close>

definition LiteXCore :: "ext \<Rightarrow> args \<Rightarrow> error + soc" where
  "LiteXCore X a =
     (let platform0 = Platform io in
      and_then (CRG platform0) (\<lambda>(p1, crg0).
      let b = SoCMini_init X (sys_clk_freq a) (kwargs a) in
      and_then (request p1 ''usb'' 0) (\<lambda>(p2, usb_pads).
      and_then (subpad usb_pads ''d_p'') (\<lambda>d_p.
      and_then (subpad usb_pads ''d_n'') (\<lambda>d_n.
      and_then (subpad usb_pads ''pullup'') (\<lambda>pullup.
      let s0 = \<lparr>soc_platform = p2,
                soc_crg = crg0,
                soc_usb = [d_p, d_n, pullup],
                soc_attrs = (''usb'', True) # base_attrs b @ [(''crg'', False)],
                soc_bus = base_bus b,
                soc_csrs = base_csrs b @ [''usb''],
                soc_comb = [],
                soc_clk_freq = sys_clk_freq a,
                mem_map = LiteXCore_mem_map X\<rparr> in
      and_then (case map_of (kwargs a) ''bus'' of
                  None \<Rightarrow> Inl (KeyError ''bus'')
                | Some v \<Rightarrow> Inr v) (\<lambda>bus_val.
      and_then (if bus_val = VStr ''wishbone'' then wishbone_master X s0 else Inr s0) (\<lambda>s1.
      irq_export (sort (irq_locs b)) s1))))))))"

text \<open>All combinational statements of the composed design: the generator's and the SoC's.\<close>

definition design_comb :: "soc \<Rightarrow> stmt list" where
  "design_comb s = crg_comb (soc_crg s) @ soc_comb s"

text \<open>
  The SoC as lines 79 to 91 leave it, before the bus branch (lemma \<open>LiteXCore_prefix\<close>
  shows that the composer reaches exactly this state).
\<close>

definition soc_before_bus :: "ext \<Rightarrow> args \<Rightarrow> soc" where
  "soc_before_bus X a =
     (let b = SoCMini_init X (sys_clk_freq a) (kwargs a) in
      \<lparr>soc_platform =
         \<lparr>groups = io,
          requested = [(''sys_rst'', 0), (''sys_clk'', 0), (''clk12'', 0), (''clk48'', 0),
                       (''usb'', 0)]\<rparr>,
       soc_crg =
         \<lparr>clock_domains = [''sys'', ''usb_12'', ''usb_48''],
          crg_comb = [
            Eq (CdRst ''sys'') (Pad ''sys_rst'' 0 []),
            Eq (CdClk ''sys'') (Pad ''clk12'' 0 []),
            Eq (CdRst ''usb_12'') (Pad ''sys_rst'' 0 []),
            Eq (CdClk ''usb_12'') (Pad ''clk12'' 0 []),
            Eq (CdRst ''usb_48'') (Pad ''sys_rst'' 0 []),
            Eq (CdClk ''usb_48'') (Pad ''clk48'' 0 [])]\<rparr>,
       soc_usb = [Pad ''usb'' 0 ''d_p'', Pad ''usb'' 0 ''d_n'', Pad ''usb'' 0 ''pullup''],
       soc_attrs = (''usb'', True) # base_attrs b @ [(''crg'', False)],
       soc_bus = base_bus b,
       soc_csrs = base_csrs b @ [''usb''],
       soc_comb = [],
       soc_clk_freq = sys_clk_freq a,
       mem_map = LiteXCore_mem_map X\<rparr>)"

subsection \<open>Committing the design\<close>

text \<open>
  The file system as \<^verbatim>\<open>Platform.build\<close> uses it: a tree of directories and files,
  each under its absolute position (the list of names from the root; the root is the
  empty list and is always a directory), the working directory, and the clock of the
  machine as the run reads it. Symbolic links, permissions and disk space are not
  modelled, and the kinds of \<^verbatim>\<open>OSError\<close> are not told apart.
\<close>

datatype node = Dir | File string

record fs =
  nodes :: "string list \<Rightarrow> node option"
  cwd :: "string list"
  clock :: nat

definition is_dir :: "(string list \<Rightarrow> node option) \<Rightarrow> string list \<Rightarrow> bool" where
  "is_dir nd p \<longleftrightarrow> p = [] \<or> nd p = Some Dir"

text \<open>
  A path argument is a string. Its components are the pieces between slashes; it is
  absolute when it starts with a slash and is followed from the working directory
  otherwise. An empty component and \<open>.\<close> stay where they are, \<open>..\<close> goes to the
  parent (the root is its own parent), and any other component goes down to the
  entry of that name.
\<close>

fun split_slash :: "string \<Rightarrow> string list" where
  "split_slash [] = [[]]"
| "split_slash (c # cs) =
     (if c = CHR ''/'' then [] # split_slash cs
      else case split_slash cs of
        [] \<Rightarrow> [[c]]
      | w # ws \<Rightarrow> (c # w) # ws)"

definition absolute :: "string \<Rightarrow> bool" where
  "absolute p \<longleftrightarrow> take 1 p = ''/''"

definition start_dir :: "string list \<Rightarrow> string \<Rightarrow> string list" where
  "start_dir c p = (if absolute p then [] else c)"

definition plain :: "string \<Rightarrow> bool" where
  "plain c \<longleftrightarrow> c \<noteq> [] \<and> c \<noteq> ''.'' \<and> c \<noteq> ''..''"

definition step :: "string list \<Rightarrow> string \<Rightarrow> string list" where
  "step cur c = (if c = ''..'' then butlast cur else if plain c then cur @ [c] else cur)"

fun walk :: "string list \<Rightarrow> string list \<Rightarrow> string list" where
  "walk cur [] = cur"
| "walk cur (c # cs) = walk (step cur c) cs"

text \<open>The positions a path passes through, one per component, in order.\<close>

fun visits :: "string list \<Rightarrow> string list \<Rightarrow> string list list" where
  "visits cur [] = []"
| "visits cur (c # cs) = step cur c # visits (step cur c) cs"

text \<open>The position a path names, when every directory on the way exists.\<close>

definition resolve :: "string list \<Rightarrow> string \<Rightarrow> string list" where
  "resolve c p = walk (start_dir c p) (split_slash p)"

text \<open>
  \<^verbatim>\<open>os.makedirs(path, exist_ok=True)\<close>, component by component from \<open>cur\<close>: the
  position it stands on must be a directory; a plain name that is missing is created,
  an existing directory is entered, and a regular file in the way raises; the other
  components only move. The empty path string is rejected.
\<close>

fun makedirs_from ::
  "(string list \<Rightarrow> node option) \<Rightarrow> string list \<Rightarrow> string list \<Rightarrow>
     error + (string list \<Rightarrow> node option)" where
  "makedirs_from nd cur [] = (if is_dir nd cur then Inr nd else Inl OSError)"
| "makedirs_from nd cur (c # cs) =
     (if \<not> is_dir nd cur then Inl OSError
      else if plain c then
        (case nd (cur @ [c]) of
           None \<Rightarrow> makedirs_from (nd(cur @ [c] \<mapsto> Dir)) (cur @ [c]) cs
         | Some Dir \<Rightarrow> makedirs_from nd (cur @ [c]) cs
         | Some (File t) \<Rightarrow> Inl OSError)
      else makedirs_from nd (step cur c) cs)"

definition makedirs :: "fs \<Rightarrow> string \<Rightarrow> error + fs" where
  "makedirs f p =
     (if p = [] then Inl OSError
      else and_then (makedirs_from (nodes f) (start_dir (cwd f) p) (split_slash p))
             (\<lambda>nd. Inr (f\<lparr>nodes := nd\<rparr>)))"

text \<open>
  \<^verbatim>\<open>os.chdir(path)\<close>: every position on the way, and the one the path names, must be
  a directory.
\<close>

fun walk_dirs ::
  "(string list \<Rightarrow> node option) \<Rightarrow> string list \<Rightarrow> string list \<Rightarrow> string list option" where
  "walk_dirs nd cur [] = (if is_dir nd cur then Some cur else None)"
| "walk_dirs nd cur (c # cs) = (if is_dir nd cur then walk_dirs nd (step cur c) cs else None)"

definition chdir :: "fs \<Rightarrow> string \<Rightarrow> error + fs" where
  "chdir f p =
     (if p = [] then Inl OSError
      else case walk_dirs (nodes f) (start_dir (cwd f) p) (split_slash p) of
        None \<Rightarrow> Inl OSError
      | Some q \<Rightarrow> Inr (f\<lparr>cwd := q\<rparr>))"

text \<open>
  Writing a file under a plain name in the working directory; the name must not be
  taken by a directory.
\<close>

definition write_file :: "fs \<Rightarrow> string \<Rightarrow> string \<Rightarrow> error + fs" where
  "write_file f name content =
     (if \<not> is_dir (nodes f) (cwd f) then Inl OSError
      else case nodes f (cwd f @ [name]) of
        Some Dir \<Rightarrow> Inl OSError
      | _ \<Rightarrow> Inr (f\<lparr>nodes := (nodes f)(cwd f @ [name] \<mapsto> File content)\<rparr>))"

text \<open>\<^verbatim>\<open>Platform.build\<close>, lines 44 to 48.\<close>

definition build :: "ext \<Rightarrow> soc \<Rightarrow> string \<Rightarrow> fs \<Rightarrow> error + fs" where
  "build X fragment build_dir f =
     and_then (makedirs f build_dir) (\<lambda>f1.
     and_then (chdir f1 build_dir) (\<lambda>f2.
     let top_output = get_verilog X fragment ''top_usb'' (clock f2) in
     write_file f2 ''litex_core.v'' top_output))"

subsection \<open>The build driver\<close>

text \<open>The parsed command line, as far as \<^verbatim>\<open>soc_argdict\<close> and the build read it.\<close>

record cli =
  bus :: string
  csr_data_width :: int
  csr_address_width :: int
  csr_paging :: int
  output_dir :: string

definition soc_argdict :: "cli \<Rightarrow> kwargs" where
  "soc_argdict c =
     [(''bus'', VStr (bus c)),
      (''csr_data_width'', VInt (csr_data_width c)),
      (''csr_address_width'', VInt (csr_address_width c)),
      (''csr_paging'', VInt (csr_paging c))]"

text \<open>
  Modelled from the spec: litex's \<^verbatim>\<open>Builder\<close> (not in the repository) is the build
  driver, which hands the composed SoC and the build directory to \<^verbatim>\<open>Platform.build\<close>;
  a failed composition ends the run before anything is written.
\<close>

definition generate :: "ext \<Rightarrow> args \<Rightarrow> string \<Rightarrow> fs \<Rightarrow> error + fs" where
  "generate X a build_dir f =
     and_then (LiteXCore X a) (\<lambda>soc0. build X soc0 build_dir f)"

definition main :: "ext \<Rightarrow> cli \<Rightarrow> fs \<Rightarrow> error + fs" where
  "main X c f = generate X (default_args (soc_argdict c)) (output_dir c) f"

subsection \<open>Descriptions used in the statements\<close>

text \<open>
  The SoC that a successful composition returns (lemma \<open>LiteXCore_Inr\<close>), and the
  wiring of the three clock domains.
\<close>

definition composed_soc :: "ext \<Rightarrow> args \<Rightarrow> soc" where
  "composed_soc X a =
     (let b = SoCMini_init X (sys_clk_freq a) (kwargs a);
          xs = sort (irq_locs b);
          wb = (map_of (kwargs a) ''bus'' = Some (VStr ''wishbone''))
      in (soc_before_bus X a)
           \<lparr>soc_platform :=
              \<lparr>groups = io @
                 (if wb
                  then [(''wb'', 0, map (\<lambda>(n, w, d). Subsignal n (Pins w)) (wishbone_layout X))]
                  else []) @
                 map (\<lambda>x. (''irq_'' @ fst x, 0, [Plain (Pins 1)])) xs,
               requested =
                 [(''sys_rst'', 0), (''sys_clk'', 0), (''clk12'', 0), (''clk48'', 0),
                  (''usb'', 0)] @
                 (if wb then [(''wb'', 0)] else []) @
                 map (\<lambda>x. (''irq_'' @ fst x, 0)) xs\<rparr>,
            soc_bus :=
              (if wb then (base_bus b)\<lparr>masters := masters (base_bus b) @
                                         [Interface (wishbone_layout X)]\<rparr>
               else base_bus b),
            soc_comb :=
              (if wb
               then map (\<lambda>(n, w, d).
                          if d = DIR_S_TO_M then Eq (Pad ''wb'' 0 n) (WbSig n)
                          else Eq (WbSig n) (Pad ''wb'' 0 n)) (wishbone_layout X)
               else []) @
              map (\<lambda>x. Eq (Pad (''irq_'' @ fst x) 0 []) (EvIrq (fst x))) xs\<rparr>)"

definition clock_wiring :: "stmt list \<Rightarrow> bool" where
  "clock_wiring c \<longleftrightarrow>
     drivers c (CdRst ''sys'') = [Pad ''sys_rst'' 0 []] \<and>
     drivers c (CdRst ''usb_12'') = [Pad ''sys_rst'' 0 []] \<and>
     drivers c (CdRst ''usb_48'') = [Pad ''sys_rst'' 0 []] \<and>
     drivers c (CdClk ''sys'') = [Pad ''clk12'' 0 []] \<and>
     drivers c (CdClk ''usb_12'') = [Pad ''clk12'' 0 []] \<and>
     drivers c (CdClk ''usb_48'') = [Pad ''clk48'' 0 []]"

text \<open>
  The same collaborators with the interrupt registry handed over in another insertion
  order.
\<close>

definition with_registry_order ::
  "((string \<times> int) list \<Rightarrow> (string \<times> int) list) \<Rightarrow> ext \<Rightarrow> ext" where
  "with_registry_order reorder X =
     X\<lparr>SoCMini_init := \<lambda>freq kw.
         (SoCMini_init X freq kw)\<lparr>irq_locs := reorder (irq_locs (SoCMini_init X freq kw))\<rparr>\<rparr>"

text \<open>
  A file system is well formed when its working directory is a directory and every
  entry lies in a directory. A commit into \<open>d\<close> meets no file-system error when the
  path is not empty, no position on its way is a regular file, and the artifact's
  name in the directory it names is neither on the way nor taken by a directory.
\<close>

definition wf_nodes :: "(string list \<Rightarrow> node option) \<Rightarrow> bool" where
  "wf_nodes nd \<longleftrightarrow> (\<forall>p. nd p \<noteq> None \<longrightarrow> is_dir nd (butlast p))"

definition wf_fs :: "fs \<Rightarrow> bool" where
  "wf_fs f \<longleftrightarrow> is_dir (nodes f) (cwd f) \<and> wf_nodes (nodes f)"

definition commit_ready :: "fs \<Rightarrow> string \<Rightarrow> bool" where
  "commit_ready f d \<longleftrightarrow>
     d \<noteq> [] \<and> wf_fs f \<and>
     (\<forall>q\<in>set (visits (start_dir (cwd f) d) (split_slash d)). \<forall>t. nodes f q \<noteq> Some (File t)) \<and>
     resolve (cwd f) d @ [''litex_core.v''] \<notin> set (visits (start_dir (cwd f) d) (split_slash d)) \<and>
     nodes f (resolve (cwd f) d @ [''litex_core.v'']) \<noteq> Some Dir"

subsection \<open>Concrete inputs\<close>

text \<open>
  A set of collaborators to run the generator on: an interrupt registry with the
  sources \<open>usb\<close>, \<open>timer0\<close> and \<open>gpio\<close> inserted in that order, a fabric with one
  master slot, the wishbone signal table, and an emitter that prints the pads of the
  design in the order they were requested and does not read the clock; the same
  collaborators with an emitter that stamps the clock reading into its text; and a
  file system with the working directory \<open>/work\<close>.
\<close>

definition example_base :: base where
  "example_base =
     \<lparr>irq_locs = [(''usb'', 0), (''timer0'', 1), (''gpio'', 2)],
      base_attrs = [(''timer0'', True), (''gpio'', True)],
      base_bus = \<lparr>masters = [], slots = 1\<rparr>,
      base_csrs = [''ctrl'']\<rparr>"

definition example_layout :: layout where
  "example_layout =
     [(''adr'', 30, DIR_M_TO_S), (''dat_w'', 32, DIR_M_TO_S), (''dat_r'', 32, DIR_S_TO_M),
      (''sel'', 4, DIR_M_TO_S), (''cyc'', 1, DIR_M_TO_S), (''stb'', 1, DIR_M_TO_S),
      (''ack'', 1, DIR_S_TO_M), (''we'', 1, DIR_M_TO_S), (''cti'', 3, DIR_M_TO_S),
      (''bte'', 2, DIR_M_TO_S), (''err'', 1, DIR_S_TO_M)]"

definition example_ext :: ext where
  "example_ext =
     \<lparr>SoCMini_init = (\<lambda>freq kw. example_base),
      wishbone_layout = example_layout,
      SoCMini_mem_map = [(''csr'', 2181038080)],
      get_verilog =
        (\<lambda>s top t. top @ concat (map (\<lambda>(n, i). '' '' @ n) (requested (soc_platform s))))\<rparr>"

definition stamping_ext :: ext where
  "stamping_ext = example_ext\<lparr>get_verilog := \<lambda>s top t. top @ '' '' @ replicate t CHR ''|''\<rparr>"

definition example_cli :: "string \<Rightarrow> cli" where
  "example_cli b =
     \<lparr>bus = b, csr_data_width = 8, csr_address_width = 14, csr_paging = 2048,
      output_dir = ''build''\<rparr>"

definition example_fs :: fs where
  "example_fs = \<lparr>nodes = [[''work''] \<mapsto> Dir], cwd = [''work''], clock = 1\<rparr>"

text \<open>The composer's arguments for a command line, and the SoCs composed from them.\<close>

definition example_args :: "string \<Rightarrow> args" where
  "example_args b = default_args (soc_argdict (example_cli b))"

definition example_soc_axi :: soc where
  "example_soc_axi =
     \<lparr>soc_platform =
        \<lparr>groups = io @
           [(''irq_gpio'', 0, [Plain (Pins 1)]),
            (''irq_timer0'', 0, [Plain (Pins 1)]),
            (''irq_usb'', 0, [Plain (Pins 1)])],
         requested =
           [(''sys_rst'', 0), (''sys_clk'', 0), (''clk12'', 0), (''clk48'', 0), (''usb'', 0),
            (''irq_gpio'', 0), (''irq_timer0'', 0), (''irq_usb'', 0)]\<rparr>,
      soc_crg =
        \<lparr>clock_domains = [''sys'', ''usb_12'', ''usb_48''],
         crg_comb = [
           Eq (CdRst ''sys'') (Pad ''sys_rst'' 0 []),
           Eq (CdClk ''sys'') (Pad ''clk12'' 0 []),
           Eq (CdRst ''usb_12'') (Pad ''sys_rst'' 0 []),
           Eq (CdClk ''usb_12'') (Pad ''clk12'' 0 []),
           Eq (CdRst ''usb_48'') (Pad ''sys_rst'' 0 []),
           Eq (CdClk ''usb_48'') (Pad ''clk48'' 0 [])]\<rparr>,
      soc_usb = [Pad ''usb'' 0 ''d_p'', Pad ''usb'' 0 ''d_n'', Pad ''usb'' 0 ''pullup''],
      soc_attrs = [(''usb'', True), (''timer0'', True), (''gpio'', True), (''crg'', False)],
      soc_bus = \<lparr>masters = [], slots = 1\<rparr>,
      soc_csrs = [''ctrl'', ''usb''],
      soc_comb =
        [Eq (Pad ''irq_gpio'' 0 []) (EvIrq ''gpio''),
         Eq (Pad ''irq_timer0'' 0 []) (EvIrq ''timer0''),
         Eq (Pad ''irq_usb'' 0 []) (EvIrq ''usb'')],
      soc_clk_freq = 100000000,
      mem_map = [(''csr'', 0)]\<rparr>"

definition example_soc_wishbone :: soc where
  "example_soc_wishbone =
     example_soc_axi
       \<lparr>soc_platform :=
          \<lparr>groups = io @
             [(''wb'', 0,
                [Subsignal ''adr'' (Pins 30), Subsignal ''dat_w'' (Pins 32),
                 Subsignal ''dat_r'' (Pins 32), Subsignal ''sel'' (Pins 4),
                 Subsignal ''cyc'' (Pins 1), Subsignal ''stb'' (Pins 1),
                 Subsignal ''ack'' (Pins 1), Subsignal ''we'' (Pins 1),
                 Subsignal ''cti'' (Pins 3), Subsignal ''bte'' (Pins 2),
                 Subsignal ''err'' (Pins 1)]),
              (''irq_gpio'', 0, [Plain (Pins 1)]),
              (''irq_timer0'', 0, [Plain (Pins 1)]),
              (''irq_usb'', 0, [Plain (Pins 1)])],
           requested =
             [(''sys_rst'', 0), (''sys_clk'', 0), (''clk12'', 0), (''clk48'', 0), (''usb'', 0),
              (''wb'', 0), (''irq_gpio'', 0), (''irq_timer0'', 0), (''irq_usb'', 0)]\<rparr>,
        soc_bus := \<lparr>masters = [Interface example_layout], slots = 1\<rparr>,
        soc_comb :=
          [Eq (WbSig ''adr'') (Pad ''wb'' 0 ''adr''),
           Eq (WbSig ''dat_w'') (Pad ''wb'' 0 ''dat_w''),
           Eq (Pad ''wb'' 0 ''dat_r'') (WbSig ''dat_r''),
           Eq (WbSig ''sel'') (Pad ''wb'' 0 ''sel''),
           Eq (WbSig ''cyc'') (Pad ''wb'' 0 ''cyc''),
           Eq (WbSig ''stb'') (Pad ''wb'' 0 ''stb''),
           Eq (Pad ''wb'' 0 ''ack'') (WbSig ''ack''),
           Eq (WbSig ''we'') (Pad ''wb'' 0 ''we''),
           Eq (WbSig ''cti'') (Pad ''wb'' 0 ''cti''),
           Eq (WbSig ''bte'') (Pad ''wb'' 0 ''bte''),
           Eq (Pad ''wb'' 0 ''err'') (WbSig ''err''),
           Eq (Pad ''irq_gpio'' 0 []) (EvIrq ''gpio''),
           Eq (Pad ''irq_timer0'' 0 []) (EvIrq ''timer0''),
           Eq (Pad ''irq_usb'' 0 []) (EvIrq ''usb'')]\<rparr>"

subsection \<open>Results about the clock and reset generator\<close>

lemma CRG_io:
  "CRG (Platform io) =
     Inr (\<lparr>groups = io,
           requested = [(''sys_rst'', 0), (''sys_clk'', 0), (''clk12'', 0), (''clk48'', 0)]\<rparr>,
          \<lparr>clock_domains = [''sys'', ''usb_12'', ''usb_48''],
           crg_comb = [
             Eq (CdRst ''sys'') (Pad ''sys_rst'' 0 []),
             Eq (CdClk ''sys'') (Pad ''clk12'' 0 []),
             Eq (CdRst ''usb_12'') (Pad ''sys_rst'' 0 []),
             Eq (CdClk ''usb_12'') (Pad ''clk12'' 0 []),
             Eq (CdRst ''usb_48'') (Pad ''sys_rst'' 0 []),
             Eq (CdClk ''usb_48'') (Pad ''clk48'' 0 [])]\<rparr>)"
  by (simp add: CRG_def Platform_def io_def request_def ident_def pad_def and_then_def)

subsection \<open>The platform, the interrupt export and the wishbone branch\<close>

lemma find_ident_None: "(n, i) \<notin> set (map ident gs) \<Longrightarrow> find (\<lambda>r. ident r = (n, i)) gs = None"
  by (induction gs) auto

lemma find_ident_new:
  "ident g \<notin> set (map ident gs) \<Longrightarrow> find (\<lambda>r. ident r = ident g) (gs @ [g]) = Some g"
  by (induction gs) auto

lemma request_resolvable:
  "(\<exists>q r. request p n i = Inr (q, r)) \<longleftrightarrow> (n, i) \<in> resolvable p"
proof -
  have "find (\<lambda>r. ident r = (n, i)) (groups p) = None \<longleftrightarrow> (n, i) \<notin> set (map ident (groups p))"
    by (force simp: find_None_iff)
  then show ?thesis
    by (auto simp: request_def resolvable_def split: option.splits)
qed

lemma request_new_group:
  assumes "add_group p g = Inr p1"
  shows "request p1 (fst g) (fst (snd g)) =
           Inr (\<lparr>groups = groups p @ [g], requested = requested p @ [ident g]\<rparr>, g)"
proof -
  from assms have fresh: "ident g \<notin> set (map ident (groups p))"
    and p1: "p1 = p\<lparr>groups := groups p @ [g]\<rparr>"
    by (auto simp: add_group_def split: if_splits)
  have "find (\<lambda>r. ident r = (fst g, fst (snd g))) (groups p @ [g]) = Some g"
    using find_ident_new [OF fresh] by (simp add: ident_def)
  then show ?thesis
    by (simp add: request_def p1 ident_def)
qed

lemma irq_export_Inr:
  "irq_export xs s = Inr s' \<Longrightarrow>
     s' = s\<lparr>soc_platform :=
              \<lparr>groups = groups (soc_platform s) @ map (\<lambda>x. (''irq_'' @ fst x, 0, [Plain (Pins 1)])) xs,
               requested = requested (soc_platform s) @ map (\<lambda>x. (''irq_'' @ fst x, 0)) xs\<rparr>,
            soc_comb := soc_comb s @ map (\<lambda>x. Eq (Pad (''irq_'' @ fst x) 0 []) (EvIrq (fst x))) xs\<rparr>"
proof (induction xs arbitrary: s)
  case Nil
  then show ?case by simp
next
  case (Cons x xs)
  obtain name loc where x: "x = (name, loc)" by (cases x)
  let ?g = "(''irq_'' @ name, 0::nat, [Plain (Pins 1)])"
  from Cons.prems obtain has_ev p1 where
    ga: "getattr s name = Inr has_ev" and ag: "add_group (soc_platform s) ?g = Inr p1"
    by (auto simp: x and_then_def split: sum.splits)
  have rq: "request p1 (''irq_'' @ name) 0 =
      Inr (\<lparr>groups = groups (soc_platform s) @ [?g],
            requested = requested (soc_platform s) @ [(''irq_'' @ name, 0)]\<rparr>, ?g)"
    using request_new_group [OF ag] by (simp add: ident_def)
  from Cons.prems ga ag rq have ev: "ev_irq has_ev name = Inr (EvIrq name)"
    by (auto simp: x and_then_def ev_irq_def split: sum.splits if_splits)
  let ?s1 = "s\<lparr>soc_platform := \<lparr>groups = groups (soc_platform s) @ [?g],
            requested = requested (soc_platform s) @ [(''irq_'' @ name, 0)]\<rparr>,
            soc_comb := soc_comb s @ [Eq (pad ?g) (EvIrq name)]\<rparr>"
  from Cons.prems ga ag rq ev have "irq_export xs ?s1 = Inr s'"
    by (simp add: x and_then_def)
  from Cons.IH [OF this] show ?case
    by (simp add: x pad_def)
qed

lemma irq_export_ok:
  assumes "distinct (map fst xs)"
    and "\<forall>n\<in>set (map fst xs). map_of (soc_attrs s) n = Some True"
    and "\<forall>n\<in>set (map fst xs). (''irq_'' @ n, 0) \<notin> resolvable (soc_platform s)"
  shows "\<exists>s'. irq_export xs s = Inr s'"
  using assms
proof (induction xs arbitrary: s)
  case Nil
  then show ?case by simp
next
  case (Cons x xs)
  obtain name loc where x: "x = (name, loc)" by (cases x)
  let ?g = "(''irq_'' @ name, 0::nat, [Plain (Pins 1)])"
  let ?p1 = "(soc_platform s)\<lparr>groups := groups (soc_platform s) @ [?g]\<rparr>"
  have ga: "getattr s name = Inr True"
    using Cons.prems(2) by (simp add: x getattr_def)
  have ag: "add_group (soc_platform s) ?g = Inr ?p1"
    using Cons.prems(3) by (simp add: x add_group_def resolvable_def ident_def)
  have rq: "request ?p1 (''irq_'' @ name) 0 =
      Inr (\<lparr>groups = groups (soc_platform s) @ [?g],
            requested = requested (soc_platform s) @ [(''irq_'' @ name, 0)]\<rparr>, ?g)"
    using request_new_group [OF ag] by (simp add: ident_def)
  let ?s1 = "s\<lparr>soc_platform := \<lparr>groups = groups (soc_platform s) @ [?g],
            requested = requested (soc_platform s) @ [(''irq_'' @ name, 0)]\<rparr>,
            soc_comb := soc_comb s @ [Eq (pad ?g) (EvIrq name)]\<rparr>"
  have step: "irq_export (x # xs) s = irq_export xs ?s1"
    using ga ag rq by (simp add: x and_then_def ev_irq_def)
  have "\<exists>s'. irq_export xs ?s1 = Inr s'"
  proof (rule Cons.IH)
    show "distinct (map fst xs)" using Cons.prems(1) by simp
    show "\<forall>n\<in>set (map fst xs). map_of (soc_attrs ?s1) n = Some True"
      using Cons.prems(2) by simp
    show "\<forall>n\<in>set (map fst xs). (''irq_'' @ n, 0) \<notin> resolvable (soc_platform ?s1)"
      using Cons.prems(1,3) by (auto simp: x resolvable_def ident_def)
  qed
  with step show ?case by simp
qed

lemma irq_export_error:
  "irq_export xs s = Inl e \<Longrightarrow> (\<exists>n. e = AttributeError n) \<or> (\<exists>n i. e = DuplicatePin n i)"
proof (induction xs arbitrary: s)
  case Nil
  then show ?case by simp
next
  case (Cons x xs)
  obtain name loc where x: "x = (name, loc)" by (cases x)
  let ?g = "(''irq_'' @ name, 0::nat, [Plain (Pins 1)])"
  show ?case
  proof (cases "getattr s name")
    case (Inl e1)
    with Cons.prems show ?thesis
      by (auto simp: x and_then_def getattr_def split: option.splits)
  next
    case ga: (Inr has_ev)
    show ?thesis
    proof (cases "add_group (soc_platform s) ?g")
      case (Inl e2)
      with Cons.prems ga show ?thesis
        by (auto simp: x and_then_def add_group_def split: if_splits)
    next
      case ag: (Inr p1)
      have rq: "request p1 (''irq_'' @ name) 0 =
          Inr (\<lparr>groups = groups (soc_platform s) @ [?g],
                requested = requested (soc_platform s) @ [(''irq_'' @ name, 0)]\<rparr>, ?g)"
        using request_new_group [OF ag] by (simp add: ident_def)
      show ?thesis
      proof (cases has_ev)
        case False
        with Cons.prems ga ag rq show ?thesis
          by (auto simp: x and_then_def ev_irq_def)
      next
        case True
        with Cons.prems ga ag rq have "\<exists>s1. irq_export xs s1 = Inl e"
          by (auto simp: x and_then_def ev_irq_def)
        with Cons.IH show ?thesis by blast
      qed
    qed
  qed
qed

lemma connect_to_pads_slave_group:
  "connect_to_pads_slave (Interface l) (g, i, cs) =
     map (\<lambda>(n, w, d).
           if d = DIR_S_TO_M then Eq (Pad g i n) (WbSig n)
           else Eq (WbSig n) (Pad g i n)) l"
  by (simp cong: if_cong)

lemma wishbone_master_Inr:
  assumes "wishbone_master X s = Inr s'"
  shows "s' = s\<lparr>soc_platform :=
              \<lparr>groups = groups (soc_platform s) @
                  [(''wb'', 0, map (\<lambda>(n, w, d). Subsignal n (Pins w)) (wishbone_layout X))],
               requested = requested (soc_platform s) @ [(''wb'', 0)]\<rparr>,
            soc_bus := (soc_bus s)\<lparr>masters := masters (soc_bus s) @ [Interface (wishbone_layout X)]\<rparr>,
            soc_comb := soc_comb s @
              map (\<lambda>(n, w, d).
                    if d = DIR_S_TO_M then Eq (Pad ''wb'' 0 n) (WbSig n)
                    else Eq (WbSig n) (Pad ''wb'' 0 n)) (wishbone_layout X)\<rparr>"
proof -
  let ?g = "(''wb'', 0::nat, map (\<lambda>(n, w, d). Subsignal n (Pins w)) (wishbone_layout X))"
  from assms obtain f1 p1 where
    am: "add_master (soc_bus s) (Interface (wishbone_layout X)) = Inr f1"
    and ag: "add_group (soc_platform s) ?g = Inr p1"
    by (auto simp: wishbone_master_def Let_def and_then_def split: sum.splits)
  have f1: "f1 = (soc_bus s)\<lparr>masters := masters (soc_bus s) @ [Interface (wishbone_layout X)]\<rparr>"
    using am by (auto simp: add_master_def split: if_splits)
  have rq: "request p1 ''wb'' 0 =
      Inr (\<lparr>groups = groups (soc_platform s) @ [?g],
            requested = requested (soc_platform s) @ [(''wb'', 0)]\<rparr>, ?g)"
    using request_new_group [OF ag] by (simp add: ident_def)
  from assms am ag rq show ?thesis
    by (simp add: wishbone_master_def Let_def and_then_def f1 connect_to_pads_slave_group
        del: connect_to_pads_slave.simps)
qed

lemma wishbone_master_error:
  "wishbone_master X s = Inl e \<Longrightarrow> e = FabricFull \<or> e = DuplicatePin ''wb'' 0"
proof -
  assume a: "wishbone_master X s = Inl e"
  let ?g = "(''wb'', 0::nat, map (\<lambda>(n, w, d). Subsignal n (Pins w)) (wishbone_layout X))"
  show ?thesis
  proof (cases "add_master (soc_bus s) (Interface (wishbone_layout X))")
    case (Inl e1)
    with a show ?thesis
      by (auto simp: wishbone_master_def Let_def and_then_def add_master_def split: if_splits)
  next
    case am: (Inr f1)
    show ?thesis
    proof (cases "add_group (soc_platform s) ?g")
      case (Inl e2)
      with a am show ?thesis
        by (auto simp: wishbone_master_def Let_def and_then_def add_group_def split: if_splits)
    next
      case ag: (Inr p1)
      have rq: "request p1 ''wb'' 0 =
          Inr (\<lparr>groups = groups (soc_platform s) @ [?g],
                requested = requested (soc_platform s) @ [(''wb'', 0)]\<rparr>, ?g)"
        using request_new_group [OF ag] by (simp add: ident_def)
      with a am ag show ?thesis
        by (simp add: wishbone_master_def Let_def and_then_def)
    qed
  qed
qed

lemma wishbone_master_ok:
  assumes "length (masters (soc_bus s)) < slots (soc_bus s)"
    and "(''wb'', 0) \<notin> resolvable (soc_platform s)"
  shows "\<exists>s'. wishbone_master X s = Inr s'"
proof -
  let ?g = "(''wb'', 0::nat, map (\<lambda>(n, w, d). Subsignal n (Pins w)) (wishbone_layout X))"
  let ?p1 = "(soc_platform s)\<lparr>groups := groups (soc_platform s) @ [?g]\<rparr>"
  have ag: "add_group (soc_platform s) ?g = Inr ?p1"
    using assms(2) by (simp add: add_group_def resolvable_def ident_def)
  have rq: "request ?p1 ''wb'' 0 =
      Inr (\<lparr>groups = groups (soc_platform s) @ [?g],
            requested = requested (soc_platform s) @ [(''wb'', 0)]\<rparr>, ?g)"
    using request_new_group [OF ag] by (simp add: ident_def)
  show ?thesis
    using assms(1) ag rq by (simp add: wishbone_master_def Let_def and_then_def add_master_def)
qed

subsection \<open>The shape of the composer\<close>

lemma request_usb:
  "request \<lparr>groups = io, requested = rq\<rparr> ''usb'' 0 =
     Inr (\<lparr>groups = io, requested = rq @ [(''usb'', 0)]\<rparr>,
          (''usb'', 0, [Subsignal ''d_p'' (Pins 1), Subsignal ''d_n'' (Pins 1),
                        Subsignal ''pullup'' (Pins 1)]))"
  by (simp add: request_def io_def ident_def)

lemma LiteXCore_prefix:
  "LiteXCore X a =
     and_then (case map_of (kwargs a) ''bus'' of
                 None \<Rightarrow> Inl (KeyError ''bus'')
               | Some v \<Rightarrow> Inr v) (\<lambda>bus_val.
     and_then (if bus_val = VStr ''wishbone'' then wishbone_master X (soc_before_bus X a)
               else Inr (soc_before_bus X a))
       (irq_export (sort (irq_locs (SoCMini_init X (sys_clk_freq a) (kwargs a))))))"
  unfolding LiteXCore_def Let_def CRG_io soc_before_bus_def
  by (simp add: and_then_def request_usb subpad_def)

lemma LiteXCore_no_wishbone:
  assumes "map_of (kwargs a) ''bus'' = Some v" and "v \<noteq> VStr ''wishbone''"
  shows "LiteXCore X a =
           irq_export (sort (irq_locs (SoCMini_init X (sys_clk_freq a) (kwargs a))))
             (soc_before_bus X a)"
  using assms by (simp add: LiteXCore_prefix and_then_def)

lemma LiteXCore_wishbone:
  assumes "map_of (kwargs a) ''bus'' = Some (VStr ''wishbone'')"
  shows "LiteXCore X a =
           and_then (wishbone_master X (soc_before_bus X a))
             (irq_export (sort (irq_locs (SoCMini_init X (sys_clk_freq a) (kwargs a)))))"
  using assms by (simp add: LiteXCore_prefix and_then_def)

lemma LiteXCore_never_UnsupportedBus: "LiteXCore X a \<noteq> Inl (UnsupportedBus v)"
proof
  assume a: "LiteXCore X a = Inl (UnsupportedBus v)"
  show False
  proof (cases "map_of (kwargs a) ''bus''")
    case None
    with a show False by (simp add: LiteXCore_prefix and_then_def)
  next
    case (Some bv)
    show False
    proof (cases "bv = VStr ''wishbone''")
      case False
      with a Some have "irq_export (sort (irq_locs (SoCMini_init X (sys_clk_freq a) (kwargs a))))
             (soc_before_bus X a) = Inl (UnsupportedBus v)"
        by (simp add: LiteXCore_no_wishbone)
      from irq_export_error [OF this] show False by auto
    next
      case True
      with a Some have w: "and_then (wishbone_master X (soc_before_bus X a))
             (irq_export (sort (irq_locs (SoCMini_init X (sys_clk_freq a) (kwargs a))))) =
             Inl (UnsupportedBus v)"
        by (simp add: LiteXCore_wishbone)
      show False
      proof (cases "wishbone_master X (soc_before_bus X a)")
        case (Inl e)
        with w have "e = UnsupportedBus v" by (simp add: and_then_def)
        with wishbone_master_error [OF Inl] show False by auto
      next
        case (Inr s1)
        with w have "irq_export (sort (irq_locs (SoCMini_init X (sys_clk_freq a) (kwargs a)))) s1 =
            Inl (UnsupportedBus v)"
          by (simp add: and_then_def)
        from irq_export_error [OF this] show False by auto
      qed
    qed
  qed
qed

subsection \<open>Running the examples, and the result of a composition\<close>

lemma sort_example:
  "sort [(''usb'', 0::int), (''timer0'', 1), (''gpio'', 2)] =
     [(''gpio'', 2), (''timer0'', 1), (''usb'', 0)]"
  by code_simp

lemmas example_defs =
  example_args_def example_ext_def default_args_def soc_argdict_def example_cli_def
  example_base_def example_layout_def

lemmas run_defs =
  and_then_def request_def io_def ident_def getattr_def add_group_def ev_irq_def pad_def
  LiteXCore_mem_map_def wishbone_master_def add_master_def soc_before_bus_def Let_def

lemma example_axi: "LiteXCore example_ext (example_args ''axi'') = Inr example_soc_axi"
  by (simp add: LiteXCore_prefix example_defs run_defs sort_example example_soc_axi_def)

lemma example_wishbone:
  "LiteXCore example_ext (example_args ''wishbone'') = Inr example_soc_wishbone"
  by (simp add: LiteXCore_prefix example_defs run_defs sort_example example_soc_axi_def
      example_soc_wishbone_def)

lemma LiteXCore_Inr:
  assumes "LiteXCore X a = Inr s"
  shows "s = composed_soc X a"
proof -
  let ?xs = "sort (irq_locs (SoCMini_init X (sys_clk_freq a) (kwargs a)))"
  let ?s0 = "soc_before_bus X a"
  from assms obtain v where v: "map_of (kwargs a) ''bus'' = Some v"
    by (cases "map_of (kwargs a) ''bus''") (auto simp: LiteXCore_prefix and_then_def)
  show ?thesis
  proof (cases "v = VStr ''wishbone''")
    case False
    with assms v have "irq_export ?xs ?s0 = Inr s"
      by (simp add: LiteXCore_no_wishbone)
    from irq_export_Inr [OF this] v False show ?thesis
      by (simp add: composed_soc_def soc_before_bus_def Let_def)
  next
    case True
    with assms v obtain s1 where s1: "wishbone_master X ?s0 = Inr s1"
      and ex: "irq_export ?xs s1 = Inr s"
      by (auto simp: LiteXCore_wishbone and_then_def split: sum.splits)
    from irq_export_Inr [OF ex] wishbone_master_Inr [OF s1] v True show ?thesis
      by (simp add: composed_soc_def soc_before_bus_def Let_def)
  qed
qed

lemma drivers_append: "drivers (c1 @ c2) s = drivers c1 s @ drivers c2 s"
  by (simp add: drivers_def)

lemma drivers_none: "\<forall>st\<in>set c. lhs st \<noteq> s \<Longrightarrow> drivers c s = []"
  by (simp add: drivers_def filter_empty_conv)

lemma mentions_append: "mentions (c1 @ c2) s \<longleftrightarrow> mentions c1 s \<or> mentions c2 s"
  by (simp add: mentions_def list_ex_iff) blast

lemma design_comb_composed:
  "design_comb (composed_soc X a) =
     crg_comb (soc_crg (soc_before_bus X a)) @ soc_comb (composed_soc X a)"
  by (simp add: design_comb_def composed_soc_def Let_def)

lemma drivers_soc_comb_domain:
  assumes "s = CdClk d \<or> s = CdRst d"
  shows "drivers (soc_comb (composed_soc X a)) s = []"
proof (rule drivers_none)
  show "\<forall>st\<in>set (soc_comb (composed_soc X a)). lhs st \<noteq> s"
    using assms by (auto simp: composed_soc_def Let_def split: if_splits)
qed

lemma clock_wiring_composed: "clock_wiring (design_comb (composed_soc X a))"
  unfolding clock_wiring_def design_comb_composed drivers_append
  by (simp add: drivers_soc_comb_domain) (simp add: drivers_def soc_before_bus_def Let_def)

text \<open>
  C4. After the clock and reset generator is built, the reset of \<open>sys\<close>, \<open>usb_12\<close> and
  \<open>usb_48\<close> is driven by the \<open>sys_rst\<close> pad, the clock of \<open>sys\<close> and of \<open>usb_12\<close> by
  the \<open>clk12\<close> pad, and the clock of \<open>usb_48\<close> by the \<open>clk48\<close> pad, which is another
  wire; the generator always builds, and every composed SoC carries this wiring with
  no further driver of a domain's clock or reset.
\<close>

theorem crg_clock_wiring:
  "(\<exists>p c. CRG (Platform io) = Inr (p, c) \<and>
          clock_domains c = [''sys'', ''usb_12'', ''usb_48''] \<and> clock_wiring (crg_comb c)) \<and>
   Pad ''clk48'' 0 [] \<noteq> Pad ''clk12'' 0 [] \<and>
   (LiteXCore X a = Inr s \<longrightarrow> clock_wiring (design_comb s))"
proof -
  have "clock_wiring [
           Eq (CdRst ''sys'') (Pad ''sys_rst'' 0 []),
           Eq (CdClk ''sys'') (Pad ''clk12'' 0 []),
           Eq (CdRst ''usb_12'') (Pad ''sys_rst'' 0 []),
           Eq (CdClk ''usb_12'') (Pad ''clk12'' 0 []),
           Eq (CdRst ''usb_48'') (Pad ''sys_rst'' 0 []),
           Eq (CdClk ''usb_48'') (Pad ''clk48'' 0 [])]"
    by (simp add: clock_wiring_def drivers_def)
  then have "\<exists>p c. CRG (Platform io) = Inr (p, c) \<and>
          clock_domains c = [''sys'', ''usb_12'', ''usb_48''] \<and> clock_wiring (crg_comb c)"
    by (simp add: CRG_io)
  moreover have "LiteXCore X a = Inr s \<longrightarrow> clock_wiring (design_comb s)"
    using LiteXCore_Inr clock_wiring_composed by blast
  ultimately show ?thesis by simp
qed

theorem crg_clock_wiring_witness:
  "LiteXCore example_ext (example_args ''wishbone'') = Inr example_soc_wishbone \<and>
   clock_wiring (design_comb example_soc_wishbone)"
  using crg_clock_wiring [of example_ext "example_args ''wishbone''" example_soc_wishbone]
  by (simp add: example_wishbone)

subsection \<open>The unconnected system clock pad, the CSR base and the unused flags\<close>

lemma mentions_soc_comb_catalog:
  assumes "g \<noteq> ''wb''" and "take 4 g \<noteq> ''irq_''"
  shows "\<not> mentions (soc_comb (composed_soc X a)) (Pad g i n)"
  using assms
  by (auto simp: mentions_def list_ex_iff composed_soc_def Let_def split: if_splits)

text \<open>
  C10. The generator requests the \<open>sys_clk\<close> pad, and no statement of the design reads
  or drives it: it is not handed to the USB controller either, and the clock of the
  \<open>sys\<close> domain is driven by the \<open>clk12\<close> pad alone.
\<close>

theorem sys_clk_requested_unconnected:
  "(\<exists>p c. CRG (Platform io) = Inr (p, c) \<and>
          (''sys_clk'', 0) \<in> set (requested p) \<and>
          \<not> mentions (crg_comb c) (Pad ''sys_clk'' 0 []) \<and>
          drivers (crg_comb c) (CdClk ''sys'') = [Pad ''clk12'' 0 []]) \<and>
   (LiteXCore X a = Inr s \<longrightarrow>
      (''sys_clk'', 0) \<in> set (requested (soc_platform s)) \<and>
      \<not> mentions (design_comb s) (Pad ''sys_clk'' 0 []) \<and>
      Pad ''sys_clk'' 0 [] \<notin> set (soc_usb s) \<and>
      drivers (design_comb s) (CdClk ''sys'') = [Pad ''clk12'' 0 []])"
proof -
  have crg: "\<exists>p c. CRG (Platform io) = Inr (p, c) \<and>
          (''sys_clk'', 0) \<in> set (requested p) \<and>
          \<not> mentions (crg_comb c) (Pad ''sys_clk'' 0 []) \<and>
          drivers (crg_comb c) (CdClk ''sys'') = [Pad ''clk12'' 0 []]"
    by (simp add: CRG_io mentions_def drivers_def)
  have soc: "(''sys_clk'', 0) \<in> set (requested (soc_platform (composed_soc X a))) \<and>
      \<not> mentions (design_comb (composed_soc X a)) (Pad ''sys_clk'' 0 []) \<and>
      Pad ''sys_clk'' 0 [] \<notin> set (soc_usb (composed_soc X a)) \<and>
      drivers (design_comb (composed_soc X a)) (CdClk ''sys'') = [Pad ''clk12'' 0 []]"
  proof (intro conjI)
    show "(''sys_clk'', 0) \<in> set (requested (soc_platform (composed_soc X a)))"
      by (simp add: composed_soc_def Let_def)
    have "\<not> mentions (crg_comb (soc_crg (soc_before_bus X a))) (Pad ''sys_clk'' 0 [])"
      by (simp add: soc_before_bus_def Let_def mentions_def)
    moreover have "\<not> mentions (soc_comb (composed_soc X a)) (Pad ''sys_clk'' 0 [])"
      by (rule mentions_soc_comb_catalog) simp_all
    ultimately show "\<not> mentions (design_comb (composed_soc X a)) (Pad ''sys_clk'' 0 [])"
      by (simp add: design_comb_composed mentions_append)
    show "Pad ''sys_clk'' 0 [] \<notin> set (soc_usb (composed_soc X a))"
      by (simp add: composed_soc_def soc_before_bus_def Let_def)
    show "drivers (design_comb (composed_soc X a)) (CdClk ''sys'') = [Pad ''clk12'' 0 []]"
      using clock_wiring_composed [of X a] by (simp add: clock_wiring_def)
  qed
  from crg soc LiteXCore_Inr [of X a s] show ?thesis by blast
qed

theorem sys_clk_requested_unconnected_witness:
  "LiteXCore example_ext (example_args ''wishbone'') = Inr example_soc_wishbone \<and>
   (''sys_clk'', 0) \<in> set (requested (soc_platform example_soc_wishbone)) \<and>
   \<not> mentions (design_comb example_soc_wishbone) (Pad ''sys_clk'' 0 []) \<and>
   Pad ''sys_clk'' 0 [] \<notin> set (soc_usb example_soc_wishbone) \<and>
   drivers (design_comb example_soc_wishbone) (CdClk ''sys'') = [Pad ''clk12'' 0 []]"
  using sys_clk_requested_unconnected
    [of example_ext "example_args ''wishbone''" example_soc_wishbone]
  by (simp add: example_wishbone)

text \<open>
  C8. The class body stores 0 under \<open>csr\<close> in the memory map, whatever litex declared
  there, and every composed SoC carries that map: the CSR region starts at offset 0
  for every configuration.
\<close>

theorem csr_base_zero:
  "map_of (LiteXCore_mem_map X) ''csr'' = Some 0 \<and>
   (LiteXCore X a = Inr s \<longrightarrow> map_of (mem_map s) ''csr'' = Some 0)"
proof -
  have m: "map_of (LiteXCore_mem_map X) ''csr'' = Some 0"
    by (simp add: LiteXCore_mem_map_def update_conv')
  have "mem_map (composed_soc X a) = LiteXCore_mem_map X"
    by (simp add: composed_soc_def soc_before_bus_def Let_def)
  with m LiteXCore_Inr [of X a s] show ?thesis by auto
qed

theorem csr_base_zero_witness:
  "LiteXCore example_ext (example_args ''axi'') = Inr example_soc_axi \<and>
   map_of (SoCMini_mem_map example_ext) ''csr'' = Some 2181038080 \<and>
   map_of (mem_map example_soc_axi) ''csr'' = Some 0"
proof -
  have run: "LiteXCore example_ext (example_args ''axi'') = Inr example_soc_axi"
    by (rule example_axi)
  have before: "map_of (SoCMini_mem_map example_ext) ''csr'' = Some 2181038080"
    by (simp add: example_ext_def)
  from csr_base_zero [of example_ext "example_args ''axi''" example_soc_axi] run before
  show ?thesis by blast
qed

text \<open>
  C3. The flags \<open>with_pwm\<close>, \<open>with_gpio\<close>, \<open>gpio_width\<close>, \<open>with_spi_master\<close>,
  \<open>spi_master_data_width\<close> and \<open>spi_master_clk_freq\<close> are accepted and never read:
  changing them changes neither the composition nor the build, and a composed SoC has
  \<open>usb\<close> as the only CSR entry the composer adds and no pin group beyond the catalog,
  the wishbone group and the interrupt pins.
\<close>

theorem unused_flags_noninterference:
  "LiteXCore X (a\<lparr>with_pwm := pwm, with_gpio := gpio, gpio_width := gw,
                  with_spi_master := spi, spi_master_data_width := dw,
                  spi_master_clk_freq := cf\<rparr>) = LiteXCore X a \<and>
   generate X (a\<lparr>with_pwm := pwm, with_gpio := gpio, gpio_width := gw,
                 with_spi_master := spi, spi_master_data_width := dw,
                 spi_master_clk_freq := cf\<rparr>) d f = generate X a d f \<and>
   (LiteXCore X a = Inr s \<longrightarrow>
      soc_csrs s = base_csrs (SoCMini_init X (sys_clk_freq a) (kwargs a)) @ [''usb''] \<and>
      (\<forall>g\<in>set (groups (soc_platform s)).
         g \<in> set io \<or> fst g = ''wb'' \<or> take 4 (fst g) = ''irq_''))"
proof -
  let ?a' = "a\<lparr>with_pwm := pwm, with_gpio := gpio, gpio_width := gw,
                  with_spi_master := spi, spi_master_data_width := dw,
                  spi_master_clk_freq := cf\<rparr>"
  have eq: "LiteXCore X ?a' = LiteXCore X a"
    by (simp add: LiteXCore_def)
  then have "generate X ?a' d f = generate X a d f"
    by (simp add: generate_def)
  moreover have "soc_csrs (composed_soc X a) =
      base_csrs (SoCMini_init X (sys_clk_freq a) (kwargs a)) @ [''usb'']"
    by (simp add: composed_soc_def soc_before_bus_def Let_def)
  moreover have "\<forall>g\<in>set (groups (soc_platform (composed_soc X a))).
         g \<in> set io \<or> fst g = ''wb'' \<or> take 4 (fst g) = ''irq_''"
    by (auto simp: composed_soc_def Let_def)
  ultimately show ?thesis
    using eq LiteXCore_Inr [of X a s] by blast
qed

theorem unused_flags_noninterference_witness:
  "LiteXCore example_ext
     ((example_args ''wishbone'')\<lparr>with_pwm := True, with_gpio := True, gpio_width := 16,
        with_spi_master := True, spi_master_data_width := 32,
        spi_master_clk_freq := 1000000\<rparr>) = Inr example_soc_wishbone \<and>
   LiteXCore example_ext (example_args ''wishbone'') = Inr example_soc_wishbone \<and>
   soc_csrs example_soc_wishbone = [''ctrl'', ''usb'']"
proof -
  have run: "LiteXCore example_ext (example_args ''wishbone'') = Inr example_soc_wishbone"
    by (rule example_wishbone)
  have csrs: "soc_csrs example_soc_wishbone = [''ctrl'', ''usb'']"
    by (simp add: example_soc_wishbone_def example_soc_axi_def)
  from unused_flags_noninterference
    [where X = example_ext and a = "example_args ''wishbone''" and pwm = True and gpio = True
      and gw = 16 and spi = True and dw = 32 and cf = 1000000 and s = example_soc_wishbone]
    run csrs
  show ?thesis by simp
qed

subsection \<open>When the composition succeeds, and the order of the registry\<close>

lemma distinct_fst_sort:
  "distinct (map fst l) \<Longrightarrow> distinct (map fst (sort l))"
  by (simp add: distinct_map)

lemma LiteXCore_succeeds:
  assumes bus: "map_of (kwargs a) ''bus'' = Some v"
    and slot: "v = VStr ''wishbone'' \<longrightarrow>
       length (masters (base_bus (SoCMini_init X (sys_clk_freq a) (kwargs a))))
         < slots (base_bus (SoCMini_init X (sys_clk_freq a) (kwargs a)))"
    and dist: "distinct (map fst (irq_locs (SoCMini_init X (sys_clk_freq a) (kwargs a))))"
    and attrs: "\<forall>n\<in>set (map fst (irq_locs (SoCMini_init X (sys_clk_freq a) (kwargs a)))).
       map_of (soc_attrs (soc_before_bus X a)) n = Some True"
  shows "LiteXCore X a = Inr (composed_soc X a)"
proof -
  let ?xs = "sort (irq_locs (SoCMini_init X (sys_clk_freq a) (kwargs a)))"
  let ?s0 = "soc_before_bus X a"
  have d: "distinct (map fst ?xs)"
    using dist by (rule distinct_fst_sort)
  have at: "\<forall>n\<in>set (map fst ?xs). map_of (soc_attrs ?s0) n = Some True"
    using attrs by simp
  have "\<exists>s. LiteXCore X a = Inr s"
  proof (cases "v = VStr ''wishbone''")
    case False
    have "\<forall>n\<in>set (map fst ?xs). (''irq_'' @ n, 0) \<notin> resolvable (soc_platform ?s0)"
      by (simp add: resolvable_def soc_before_bus_def Let_def io_def ident_def)
    from irq_export_ok [OF d at this] bus False show ?thesis
      by (simp add: LiteXCore_no_wishbone)
  next
    case True
    have "(''wb'', 0) \<notin> resolvable (soc_platform ?s0)"
      by (simp add: resolvable_def soc_before_bus_def Let_def io_def ident_def)
    moreover have "length (masters (soc_bus ?s0)) < slots (soc_bus ?s0)"
      using slot True by (simp add: soc_before_bus_def Let_def)
    ultimately obtain s1 where s1: "wishbone_master X ?s0 = Inr s1"
      using wishbone_master_ok by blast
    note shape = wishbone_master_Inr [OF s1]
    have at1: "\<forall>n\<in>set (map fst ?xs). map_of (soc_attrs s1) n = Some True"
      using at by (subst shape) simp
    have "\<forall>n\<in>set (map fst ?xs). (''irq_'' @ n, 0) \<notin> resolvable (soc_platform s1)"
      by (subst shape) (simp add: resolvable_def soc_before_bus_def Let_def io_def ident_def)
    from irq_export_ok [OF d at1 this] s1 bus True show ?thesis
      by (simp add: LiteXCore_wishbone and_then_def)
  qed
  with LiteXCore_Inr show ?thesis by blast
qed

lemma fst_le_of_le: "(x :: string \<times> int) \<le> y \<Longrightarrow> fst x \<le> fst y"
  by (auto simp: less_eq_prod_def)

lemma sorted_keys_of_sorted_items:
  "sorted (l :: (string \<times> int) list) \<Longrightarrow> sorted (map fst l)"
  by (induction l) (auto simp: fst_le_of_le)

lemma sort_items_keys:
  assumes "distinct (map fst (l :: (string \<times> int) list))"
  shows "map fst (sort l) = sort (map fst l)"
proof (rule sorted_distinct_set_unique)
  show "sorted (map fst (sort l))" by (rule sorted_keys_of_sorted_items) simp
  show "distinct (map fst (sort l))" using assms by (simp add: distinct_map)
  show "sorted (sort (map fst l))" by simp
  show "distinct (sort (map fst l))" using assms by simp
  show "set (map fst (sort l)) = set (sort (map fst l))" by simp
qed

lemma sort_reorder:
  assumes "distinct (map fst (l :: (string \<times> int) list))" and "distinct (map fst l')"
    and "set l' = set l"
  shows "sort l' = sort l"
proof (rule sorted_distinct_set_unique)
  show "sorted (sort l')" and "sorted (sort l)" by simp_all
  show "distinct (sort l')" using assms(2) by (simp add: distinct_map)
  show "distinct (sort l)" using assms(1) by (simp add: distinct_map)
  show "set (sort l') = set (sort l)" using assms(3) by simp
qed

lemma LiteXCore_registry_order:
  assumes "distinct (map fst (irq_locs (SoCMini_init X (sys_clk_freq a) (kwargs a))))"
    and "distinct (map fst (reorder (irq_locs (SoCMini_init X (sys_clk_freq a) (kwargs a)))))"
    and "set (reorder (irq_locs (SoCMini_init X (sys_clk_freq a) (kwargs a)))) =
         set (irq_locs (SoCMini_init X (sys_clk_freq a) (kwargs a)))"
  shows "LiteXCore (with_registry_order reorder X) a = LiteXCore X a"
proof -
  let ?X' = "with_registry_order reorder X"
  let ?l = "irq_locs (SoCMini_init X (sys_clk_freq a) (kwargs a))"
  have locs: "irq_locs (SoCMini_init ?X' (sys_clk_freq a) (kwargs a)) = reorder ?l"
    by (simp add: with_registry_order_def)
  have srt: "sort (reorder ?l) = sort ?l"
    using assms by (rule sort_reorder)
  have s0: "soc_before_bus ?X' a = soc_before_bus X a"
    by (simp add: soc_before_bus_def with_registry_order_def LiteXCore_mem_map_def Let_def)
  have wb: "\<And>s. wishbone_master ?X' s = wishbone_master X s"
    by (simp add: wishbone_master_def with_registry_order_def)
  show ?thesis
    by (simp only: LiteXCore_prefix locs srt s0 wb)
qed

subsection \<open>The exported interrupt pins\<close>

text \<open>
  C2. For an interrupt registry with distinct source names, each naming a module with
  an event line (and a free master slot when the bus is wishbone), the composer, which
  sorts the registry's items itself, succeeds, and after the catalog and the wishbone
  group the platform holds one single-bit group \<open>irq_<name>\<close> per source, registered,
  requested and driven from the module's interrupt line (the pad stands on the driven
  side: an output) in the ascending order of the names; the names exported are
  distinct and are exactly the sources; and with the same entries inserted into the
  registry in any other order the composer returns the same SoC.
\<close>

theorem irq_pins_sorted:
  assumes "map_of (kwargs a) ''bus'' = Some v"
    and "v = VStr ''wishbone'' \<longrightarrow>
       length (masters (base_bus (SoCMini_init X (sys_clk_freq a) (kwargs a))))
         < slots (base_bus (SoCMini_init X (sys_clk_freq a) (kwargs a)))"
    and "distinct (map fst (irq_locs (SoCMini_init X (sys_clk_freq a) (kwargs a))))"
    and "\<forall>n\<in>set (map fst (irq_locs (SoCMini_init X (sys_clk_freq a) (kwargs a)))).
       map_of ((''usb'', True) # base_attrs (SoCMini_init X (sys_clk_freq a) (kwargs a)) @
               [(''crg'', False)]) n = Some True"
  shows
    "\<exists>s. LiteXCore X a = Inr s \<and>
       groups (soc_platform s) =
         io @
         (if v = VStr ''wishbone''
          then [(''wb'', 0, map (\<lambda>(n, w, d). Subsignal n (Pins w)) (wishbone_layout X))]
          else []) @
         map (\<lambda>n. (''irq_'' @ n, 0, [Plain (Pins 1)]))
           (sort (map fst (irq_locs (SoCMini_init X (sys_clk_freq a) (kwargs a))))) \<and>
       requested (soc_platform s) =
         [(''sys_rst'', 0), (''sys_clk'', 0), (''clk12'', 0), (''clk48'', 0), (''usb'', 0)] @
         (if v = VStr ''wishbone'' then [(''wb'', 0)] else []) @
         map (\<lambda>n. (''irq_'' @ n, 0))
           (sort (map fst (irq_locs (SoCMini_init X (sys_clk_freq a) (kwargs a))))) \<and>
       soc_comb s =
         (if v = VStr ''wishbone''
          then map (\<lambda>(n, w, d).
                     if d = DIR_S_TO_M then Eq (Pad ''wb'' 0 n) (WbSig n)
                     else Eq (WbSig n) (Pad ''wb'' 0 n)) (wishbone_layout X)
          else []) @
         map (\<lambda>n. Eq (Pad (''irq_'' @ n) 0 []) (EvIrq n))
           (sort (map fst (irq_locs (SoCMini_init X (sys_clk_freq a) (kwargs a))))) \<and>
       distinct (sort (map fst (irq_locs (SoCMini_init X (sys_clk_freq a) (kwargs a))))) \<and>
       set (sort (map fst (irq_locs (SoCMini_init X (sys_clk_freq a) (kwargs a))))) =
         fst ` set (irq_locs (SoCMini_init X (sys_clk_freq a) (kwargs a))) \<and>
       (\<forall>reorder.
          distinct (map fst (reorder (irq_locs (SoCMini_init X (sys_clk_freq a) (kwargs a))))) \<and>
          set (reorder (irq_locs (SoCMini_init X (sys_clk_freq a) (kwargs a)))) =
            set (irq_locs (SoCMini_init X (sys_clk_freq a) (kwargs a))) \<longrightarrow>
          LiteXCore (with_registry_order reorder X) a = Inr s)"
proof -
  let ?B = "SoCMini_init X (sys_clk_freq a) (kwargs a)"
  let ?l = "irq_locs ?B"
  let ?s = "composed_soc X a"
  have attrs: "\<forall>n\<in>set (map fst ?l). map_of (soc_attrs (soc_before_bus X a)) n = Some True"
    using assms(4) by (simp add: soc_before_bus_def Let_def)
  have run: "LiteXCore X a = Inr ?s"
    using assms(1,2,3) attrs by (rule LiteXCore_succeeds)
  have keys: "map fst (sort ?l) = sort (map fst ?l)"
    using assms(3) by (rule sort_items_keys)
  have wb: "(map_of (kwargs a) ''bus'' = Some (VStr ''wishbone'')) = (v = VStr ''wishbone'')"
    using assms(1) by auto
  have m1: "map (\<lambda>x. (''irq_'' @ fst x, 0::nat, [Plain (Pins 1)])) (sort ?l) =
      map (\<lambda>n. (''irq_'' @ n, 0, [Plain (Pins 1)])) (sort (map fst ?l))"
    by (subst keys [symmetric]) (simp add: comp_def)
  have m2: "map (\<lambda>x. (''irq_'' @ fst x, 0::nat)) (sort ?l) =
      map (\<lambda>n. (''irq_'' @ n, 0)) (sort (map fst ?l))"
    by (subst keys [symmetric]) (simp add: comp_def)
  have m3: "map (\<lambda>x. Eq (Pad (''irq_'' @ fst x) 0 []) (EvIrq (fst x))) (sort ?l) =
      map (\<lambda>n. Eq (Pad (''irq_'' @ n) 0 []) (EvIrq n)) (sort (map fst ?l))"
    by (subst keys [symmetric]) (simp add: comp_def)
  have g: "groups (soc_platform ?s) =
         io @
         (if v = VStr ''wishbone''
          then [(''wb'', 0, map (\<lambda>(n, w, d). Subsignal n (Pins w)) (wishbone_layout X))]
          else []) @
         map (\<lambda>n. (''irq_'' @ n, 0, [Plain (Pins 1)])) (sort (map fst ?l))"
    using m1 by (simp add: composed_soc_def Let_def wb)
  have q: "requested (soc_platform ?s) =
         [(''sys_rst'', 0), (''sys_clk'', 0), (''clk12'', 0), (''clk48'', 0), (''usb'', 0)] @
         (if v = VStr ''wishbone'' then [(''wb'', 0)] else []) @
         map (\<lambda>n. (''irq_'' @ n, 0)) (sort (map fst ?l))"
    using m2 by (simp add: composed_soc_def Let_def wb)
  have c: "soc_comb ?s =
         (if v = VStr ''wishbone''
          then map (\<lambda>(n, w, d).
                     if d = DIR_S_TO_M then Eq (Pad ''wb'' 0 n) (WbSig n)
                     else Eq (WbSig n) (Pad ''wb'' 0 n)) (wishbone_layout X)
          else []) @
         map (\<lambda>n. Eq (Pad (''irq_'' @ n) 0 []) (EvIrq n)) (sort (map fst ?l))"
    using m3 by (simp add: composed_soc_def Let_def wb)
  have dd: "distinct (sort (map fst ?l))" using assms(3) by simp
  have ss: "set (sort (map fst ?l)) = fst ` set ?l" by simp
  have ord: "\<forall>reorder. distinct (map fst (reorder ?l)) \<and> set (reorder ?l) = set ?l \<longrightarrow>
          LiteXCore (with_registry_order reorder X) a = Inr ?s"
    using LiteXCore_registry_order [OF assms(3)] run by auto
  show ?thesis
    using run g q c dd ss ord by (intro exI [of _ ?s] conjI)
qed

lemma sort_example_names:
  "sort [''usb'', ''timer0'', ''gpio''] = [''gpio'', ''timer0'', ''usb'']"
  by code_simp

theorem irq_pins_sorted_witness:
  "map_of (kwargs (example_args ''axi'')) ''bus'' = Some (VStr ''axi'') \<and>
   irq_locs (SoCMini_init example_ext (sys_clk_freq (example_args ''axi''))
     (kwargs (example_args ''axi''))) = [(''usb'', 0), (''timer0'', 1), (''gpio'', 2)] \<and>
   (\<exists>s. LiteXCore example_ext (example_args ''axi'') = Inr s \<and>
        groups (soc_platform s) =
          io @ [(''irq_gpio'', 0, [Plain (Pins 1)]), (''irq_timer0'', 0, [Plain (Pins 1)]),
                (''irq_usb'', 0, [Plain (Pins 1)])] \<and>
        soc_comb s =
          [Eq (Pad ''irq_gpio'' 0 []) (EvIrq ''gpio''),
           Eq (Pad ''irq_timer0'' 0 []) (EvIrq ''timer0''),
           Eq (Pad ''irq_usb'' 0 []) (EvIrq ''usb'')] \<and>
        LiteXCore (with_registry_order rev example_ext) (example_args ''axi'') = Inr s) \<and>
   irq_locs (SoCMini_init (with_registry_order rev example_ext)
     (sys_clk_freq (example_args ''axi'')) (kwargs (example_args ''axi''))) =
     [(''gpio'', 2), (''timer0'', 1), (''usb'', 0)]"
proof -
  let ?a = "example_args ''axi''"
  let ?B = "SoCMini_init example_ext (sys_clk_freq ?a) (kwargs ?a)"
  have B: "?B = example_base" by (simp add: example_ext_def)
  have h1: "map_of (kwargs ?a) ''bus'' = Some (VStr ''axi'')"
    by (simp add: example_args_def default_args_def soc_argdict_def example_cli_def)
  have h2: "VStr ''axi'' = VStr ''wishbone'' \<longrightarrow>
      length (masters (base_bus ?B)) < slots (base_bus ?B)"
    by simp
  have h3: "distinct (map fst (irq_locs ?B))"
    by (simp add: B example_base_def)
  have h4: "\<forall>n\<in>set (map fst (irq_locs ?B)).
       map_of ((''usb'', True) # base_attrs ?B @ [(''crg'', False)]) n = Some True"
    by (simp add: B example_base_def)
  have locs: "irq_locs ?B = [(''usb'', 0), (''timer0'', 1), (''gpio'', 2)]"
    by (simp add: B example_base_def)
  have names: "sort (map fst (irq_locs ?B)) = [''gpio'', ''timer0'', ''usb'']"
    using sort_example_names by (simp add: locs)
  have rlocs: "irq_locs (SoCMini_init (with_registry_order rev example_ext)
      (sys_clk_freq ?a) (kwargs ?a)) = [(''gpio'', 2), (''timer0'', 1), (''usb'', 0)]"
    by (simp add: with_registry_order_def example_ext_def example_base_def)
  have perm: "distinct (map fst (rev (irq_locs ?B))) \<and> set (rev (irq_locs ?B)) = set (irq_locs ?B)"
    using h3 by (simp add: rev_map [symmetric])
  from irq_pins_sorted [OF h1 h2 h3 h4] obtain s where
    run: "LiteXCore example_ext ?a = Inr s"
    and g: "groups (soc_platform s) =
         io @ (if VStr ''axi'' = VStr ''wishbone''
          then [(''wb'', 0, map (\<lambda>(n, w, d). Subsignal n (Pins w)) (wishbone_layout example_ext))]
          else []) @
         map (\<lambda>n. (''irq_'' @ n, 0, [Plain (Pins 1)])) (sort (map fst (irq_locs ?B)))"
    and c: "soc_comb s =
         (if VStr ''axi'' = VStr ''wishbone''
          then map (\<lambda>(n, w, d).
                     if d = DIR_S_TO_M then Eq (Pad ''wb'' 0 n) (WbSig n)
                     else Eq (WbSig n) (Pad ''wb'' 0 n)) (wishbone_layout example_ext)
          else []) @
         map (\<lambda>n. Eq (Pad (''irq_'' @ n) 0 []) (EvIrq n)) (sort (map fst (irq_locs ?B)))"
    and ord: "\<forall>reorder. distinct (map fst (reorder (irq_locs ?B))) \<and>
          set (reorder (irq_locs ?B)) = set (irq_locs ?B) \<longrightarrow>
          LiteXCore (with_registry_order reorder example_ext) ?a = Inr s"
    by blast
  have g': "groups (soc_platform s) =
          io @ [(''irq_gpio'', 0, [Plain (Pins 1)]), (''irq_timer0'', 0, [Plain (Pins 1)]),
                (''irq_usb'', 0, [Plain (Pins 1)])]"
    unfolding g names by simp
  have c': "soc_comb s =
          [Eq (Pad ''irq_gpio'' 0 []) (EvIrq ''gpio''),
           Eq (Pad ''irq_timer0'' 0 []) (EvIrq ''timer0''),
           Eq (Pad ''irq_usb'' 0 []) (EvIrq ''usb'')]"
    unfolding c names by simp
  from ord perm have o: "LiteXCore (with_registry_order rev example_ext) ?a = Inr s"
    by blast
  from h1 locs run g' c' o rlocs show ?thesis by blast
qed

subsection \<open>The wishbone attachment\<close>

text \<open>
  C6. When the bus is wishbone and the composition succeeds, a master endpoint with the
  wishbone signal table has been appended to the fabric's masters, its pin-group view
  is registered on the platform under the name \<open>wb\<close> and requested, and the wiring has
  the slave orientation: a wire the master drives is read from its pad (the pad is an
  input of the design, and only such pads are read), and a wire the master receives
  drives its pad (the pad is an output, and only such pads are driven).
\<close>

theorem wishbone_attachment:
  assumes "map_of (kwargs a) ''bus'' = Some (VStr ''wishbone'')"
    and "LiteXCore X a = Inr s"
  shows
    "masters (soc_bus s) =
       masters (base_bus (SoCMini_init X (sys_clk_freq a) (kwargs a))) @
       [Interface (wishbone_layout X)] \<and>
     (''wb'', 0, map (\<lambda>(n, w, d). Subsignal n (Pins w)) (wishbone_layout X))
       \<in> set (groups (soc_platform s)) \<and>
     (''wb'', 0) \<in> set (requested (soc_platform s)) \<and>
     (\<forall>(n, w, d)\<in>set (wishbone_layout X).
        (if d = DIR_M_TO_S then Eq (WbSig n) (Pad ''wb'' 0 n)
         else Eq (Pad ''wb'' 0 n) (WbSig n)) \<in> set (soc_comb s)) \<and>
     (\<forall>n. Pad ''wb'' 0 n \<in> set (map rhs (soc_comb s)) \<longleftrightarrow>
          (\<exists>w. (n, w, DIR_M_TO_S) \<in> set (wishbone_layout X))) \<and>
     (\<forall>n. Pad ''wb'' 0 n \<in> set (map lhs (soc_comb s)) \<longleftrightarrow>
          (\<exists>w. (n, w, DIR_S_TO_M) \<in> set (wishbone_layout X)))"
proof -
  let ?L = "wishbone_layout X"
  let ?f = "\<lambda>(n, w, d). if d = DIR_S_TO_M then Eq (Pad ''wb'' 0 n) (WbSig n)
                            else Eq (WbSig n) (Pad ''wb'' 0 n)"
  let ?irq = "map (\<lambda>x. Eq (Pad (''irq_'' @ fst x) 0 []) (EvIrq (fst x)))
                (sort (irq_locs (SoCMini_init X (sys_clk_freq a) (kwargs a))))"
  from assms(2) have s: "s = composed_soc X a" by (rule LiteXCore_Inr)
  have comb: "soc_comb s = map ?f ?L @ ?irq"
    using assms(1) by (simp add: s composed_soc_def Let_def)
  have dir: "\<And>d. d \<noteq> DIR_S_TO_M \<longleftrightarrow> d = DIR_M_TO_S"
    by (case_tac d) simp_all
  have m: "masters (soc_bus s) =
       masters (base_bus (SoCMini_init X (sys_clk_freq a) (kwargs a))) @ [Interface ?L]"
    using assms(1) by (simp add: s composed_soc_def Let_def)
  have g: "(''wb'', 0, map (\<lambda>(n, w, d). Subsignal n (Pins w)) ?L) \<in> set (groups (soc_platform s))"
    using assms(1) by (simp add: s composed_soc_def Let_def)
  have r: "(''wb'', 0) \<in> set (requested (soc_platform s))"
    using assms(1) by (simp add: s composed_soc_def Let_def)
  have w: "\<forall>(n, w, d)\<in>set ?L.
        (if d = DIR_M_TO_S then Eq (WbSig n) (Pad ''wb'' 0 n)
         else Eq (Pad ''wb'' 0 n) (WbSig n)) \<in> set (soc_comb s)"
  proof (clarify)
    fix n w d assume e: "(n, w, d) \<in> set ?L"
    then have "?f (n, w, d) \<in> set (map ?f ?L)" by (simp only: set_map) (rule imageI)
    then show "(if d = DIR_M_TO_S then Eq (WbSig n) (Pad ''wb'' 0 n)
         else Eq (Pad ''wb'' 0 n) (WbSig n)) \<in> set (soc_comb s)"
      using dir [of d] by (cases d) (simp_all add: comb)
  qed
  have i: "\<forall>n. Pad ''wb'' 0 n \<in> set (map rhs (soc_comb s)) \<longleftrightarrow>
          (\<exists>w. (n, w, DIR_M_TO_S) \<in> set ?L)"
    unfolding comb using dir by (auto simp: image_iff split: if_splits) force+
  have out: "\<forall>n. Pad ''wb'' 0 n \<in> set (map lhs (soc_comb s)) \<longleftrightarrow>
          (\<exists>w. (n, w, DIR_S_TO_M) \<in> set ?L)"
    unfolding comb using dir by (auto simp: image_iff split: if_splits) force+
  from m g r w i out show ?thesis by blast
qed


theorem wishbone_attachment_witness:
  "map_of (kwargs (example_args ''wishbone'')) ''bus'' = Some (VStr ''wishbone'') \<and>
   LiteXCore example_ext (example_args ''wishbone'') = Inr example_soc_wishbone \<and>
   masters (soc_bus example_soc_wishbone) = [Interface example_layout] \<and>
   Eq (WbSig ''adr'') (Pad ''wb'' 0 ''adr'') \<in> set (soc_comb example_soc_wishbone) \<and>
   Eq (Pad ''wb'' 0 ''ack'') (WbSig ''ack'') \<in> set (soc_comb example_soc_wishbone) \<and>
   Pad ''wb'' 0 ''adr'' \<notin> set (map lhs (soc_comb example_soc_wishbone)) \<and>
   Pad ''wb'' 0 ''ack'' \<notin> set (map rhs (soc_comb example_soc_wishbone))"
proof -
  have bus: "map_of (kwargs (example_args ''wishbone'')) ''bus'' = Some (VStr ''wishbone'')"
    by (simp add: example_args_def default_args_def soc_argdict_def example_cli_def)
  have run: "LiteXCore example_ext (example_args ''wishbone'') = Inr example_soc_wishbone"
    by (rule example_wishbone)
  have base: "masters (base_bus (SoCMini_init example_ext (sys_clk_freq (example_args ''wishbone''))
      (kwargs (example_args ''wishbone'')))) = []"
    by (simp add: example_ext_def example_base_def)
  have lay: "wishbone_layout example_ext = example_layout"
    by (simp add: example_ext_def)
  have adr: "(''adr'', 30, DIR_M_TO_S) \<in> set example_layout"
    and ack: "(''ack'', 1, DIR_S_TO_M) \<in> set example_layout"
    and no_adr: "\<not> (\<exists>w. (''adr'', w, DIR_S_TO_M) \<in> set example_layout)"
    and no_ack: "\<not> (\<exists>w. (''ack'', w, DIR_M_TO_S) \<in> set example_layout)"
    by (simp_all add: example_layout_def)
  note w = wishbone_attachment [OF bus run, unfolded lay base]
  from w have m: "masters (soc_bus example_soc_wishbone) = [Interface example_layout]"
    by simp
  from w adr have a1: "Eq (WbSig ''adr'') (Pad ''wb'' 0 ''adr'') \<in> set (soc_comb example_soc_wishbone)"
    by fastforce
  from w ack have a2: "Eq (Pad ''wb'' 0 ''ack'') (WbSig ''ack'') \<in> set (soc_comb example_soc_wishbone)"
    by fastforce
  from w no_adr have a3: "Pad ''wb'' 0 ''adr'' \<notin> set (map lhs (soc_comb example_soc_wishbone))"
    by blast
  from w no_ack have a4: "Pad ''wb'' 0 ''ack'' \<notin> set (map rhs (soc_comb example_soc_wishbone))"
    by blast
  from bus run m a1 a2 a3 a4 show ?thesis by simp
qed

subsection \<open>Committing the design to the build directory\<close>

lemma makedirs_from_step:
  assumes "makedirs_from nd cur (c # cs) = Inr nd'"
  shows "is_dir nd cur \<and>
     (\<exists>nd1. makedirs_from nd1 (step cur c) cs = Inr nd' \<and>
        (nd1 = nd \<or> (plain c \<and> nd (cur @ [c]) = None \<and> nd1 = nd(cur @ [c] \<mapsto> Dir))))"
proof -
  from assms have d: "is_dir nd cur"
    by (auto split: if_splits)
  show ?thesis
  proof (cases "plain c")
    case False
    with assms d show ?thesis by auto
  next
    case True
    then have st: "step cur c = cur @ [c]" by (simp add: step_def plain_def)
    show ?thesis
    proof (cases "nd (cur @ [c])")
      case None
      with assms d True st show ?thesis by (auto simp: is_dir_def)
    next
      case (Some n)
      with assms d True st show ?thesis by (cases n) (auto simp: is_dir_def)
    qed
  qed
qed

lemma makedirs_from_next:
  assumes "makedirs_from nd cur (c # cs) = Inr nd'"
  obtains nd1 where "makedirs_from nd1 (step cur c) cs = Inr nd'"
    and "nd1 = nd \<or> (plain c \<and> nd (cur @ [c]) = None \<and> nd1 = nd(cur @ [c] \<mapsto> Dir))"
    and "is_dir nd cur"
  using makedirs_from_step [OF assms] by blast

lemma makedirs_from_keeps:
  "makedirs_from nd cur cs = Inr nd' \<Longrightarrow> nd p \<noteq> None \<Longrightarrow> nd' p = nd p"
proof (induction cs arbitrary: nd cur)
  case Nil
  then show ?case by (simp split: if_splits)
next
  case (Cons c cs)
  from Cons.prems(1) obtain nd1 where run: "makedirs_from nd1 (step cur c) cs = Inr nd'"
    and nd1: "nd1 = nd \<or> (plain c \<and> nd (cur @ [c]) = None \<and> nd1 = nd(cur @ [c] \<mapsto> Dir))"
    by (rule makedirs_from_next)
  from nd1 Cons.prems(2) have same: "nd1 p = nd p" by auto
  with Cons.prems(2) have "nd1 p \<noteq> None" by simp
  from Cons.IH [OF run this] same show ?case by simp
qed

lemma makedirs_from_is_dir:
  "makedirs_from nd cur cs = Inr nd' \<Longrightarrow> is_dir nd p \<Longrightarrow> is_dir nd' p"
  using makedirs_from_keeps [of nd cur cs nd' p] by (auto simp: is_dir_def)

lemma makedirs_from_changes:
  "makedirs_from nd cur cs = Inr nd' \<Longrightarrow> nd' p \<noteq> nd p \<Longrightarrow>
     nd p = None \<and> nd' p = Some Dir \<and> p \<in> set (visits cur cs)"
proof (induction cs arbitrary: nd cur)
  case Nil
  then show ?case by (simp split: if_splits)
next
  case (Cons c cs)
  from Cons.prems(1) obtain nd1 where run: "makedirs_from nd1 (step cur c) cs = Inr nd'"
    and nd1: "nd1 = nd \<or> (plain c \<and> nd (cur @ [c]) = None \<and> nd1 = nd(cur @ [c] \<mapsto> Dir))"
    by (rule makedirs_from_next)
  have none: "nd p = None"
    using makedirs_from_keeps [OF Cons.prems(1), of p] Cons.prems(2) by blast
  show ?case
  proof (cases "nd' p = nd1 p")
    case False
    from Cons.IH [OF run False] none show ?thesis by simp
  next
    case True
    with Cons.prems(2) have ne: "nd1 p \<noteq> nd p" by simp
    with nd1 have c: "plain c" and upd: "nd1 = nd(cur @ [c] \<mapsto> Dir)" by auto
    from ne upd have p: "p = cur @ [c]" by (auto split: if_splits)
    from c have "step cur c = cur @ [c]" by (simp add: step_def plain_def)
    with p True upd none show ?thesis by simp
  qed
qed

lemma makedirs_from_visits:
  "makedirs_from nd cur cs = Inr nd' \<Longrightarrow> q \<in> set (visits cur cs) \<Longrightarrow> is_dir nd' q"
proof (induction cs arbitrary: nd cur)
  case Nil
  then show ?case by simp
next
  case (Cons c cs)
  from Cons.prems(1) obtain nd1 where run: "makedirs_from nd1 (step cur c) cs = Inr nd'"
    by (rule makedirs_from_next)
  have here: "is_dir nd1 (step cur c)"
    using run by (cases cs) (auto split: if_splits)
  from Cons.prems(2) have "q = step cur c \<or> q \<in> set (visits (step cur c) cs)" by simp
  then show ?case
  proof
    assume "q = step cur c"
    with here makedirs_from_is_dir [OF run] show ?thesis by simp
  next
    assume "q \<in> set (visits (step cur c) cs)"
    from Cons.IH [OF run this] show ?thesis .
  qed
qed

lemma makedirs_from_walk:
  "makedirs_from nd cur cs = Inr nd' \<Longrightarrow> walk_dirs nd' cur cs = Some (walk cur cs)"
proof (induction cs arbitrary: nd cur)
  case Nil
  then show ?case by (simp split: if_splits)
next
  case (Cons c cs)
  from Cons.prems obtain nd1 where run: "makedirs_from nd1 (step cur c) cs = Inr nd'"
    and nd1: "nd1 = nd \<or> (plain c \<and> nd (cur @ [c]) = None \<and> nd1 = nd(cur @ [c] \<mapsto> Dir))"
    and d: "is_dir nd cur"
    by (rule makedirs_from_next)
  from nd1 d have "is_dir nd1 cur" by (auto simp: is_dir_def)
  with makedirs_from_is_dir [OF run] have "is_dir nd' cur" by simp
  with Cons.IH [OF run] show ?case by simp
qed

lemma wf_nodes_mkdir:
  assumes "wf_nodes nd" and "is_dir nd cur"
  shows "wf_nodes (nd(cur @ [c] \<mapsto> Dir))"
  unfolding wf_nodes_def
proof (intro allI impI)
  fix p assume p: "(nd(cur @ [c] \<mapsto> Dir)) p \<noteq> None"
  show "is_dir (nd(cur @ [c] \<mapsto> Dir)) (butlast p)"
  proof (cases "p = cur @ [c]")
    case True
    with assms(2) show ?thesis by (auto simp: is_dir_def)
  next
    case False
    with p have "nd p \<noteq> None" by simp
    with assms(1) have "is_dir nd (butlast p)" by (simp add: wf_nodes_def)
    then show ?thesis by (auto simp: is_dir_def)
  qed
qed

lemma is_dir_parent:
  assumes "wf_nodes nd" and "is_dir nd cur"
  shows "is_dir nd (butlast cur)"
proof (cases "cur = []")
  case True
  then show ?thesis by (simp add: is_dir_def)
next
  case False
  with assms(2) have "nd cur \<noteq> None" by (simp add: is_dir_def)
  with assms(1) show ?thesis by (simp add: wf_nodes_def)
qed

lemma makedirs_from_ok:
  assumes "wf_nodes nd" and "is_dir nd cur"
    and "\<forall>q\<in>set (visits cur cs). \<forall>t. nd q \<noteq> Some (File t)"
  shows "\<exists>nd'. makedirs_from nd cur cs = Inr nd'"
  using assms
proof (induction cs arbitrary: nd cur)
  case Nil
  then show ?case by simp
next
  case (Cons c cs)
  show ?case
  proof (cases "plain c")
    case False
    then have st: "step cur c = cur \<or> step cur c = butlast cur" by (simp add: step_def)
    with Cons.prems(1,2) is_dir_parent have d: "is_dir nd (step cur c)" by auto
    have "\<forall>q\<in>set (visits (step cur c) cs). \<forall>t. nd q \<noteq> Some (File t)"
      using Cons.prems(3) by simp
    from Cons.IH [OF Cons.prems(1) d this] False Cons.prems(2) show ?thesis by simp
  next
    case True
    then have st: "step cur c = cur @ [c]" by (simp add: step_def plain_def)
    have nofile: "\<forall>t. nd (cur @ [c]) \<noteq> Some (File t)"
      using Cons.prems(3) st by simp
    have rest: "\<forall>q\<in>set (visits (cur @ [c]) cs). \<forall>t. nd q \<noteq> Some (File t)"
      using Cons.prems(3) st by simp
    show ?thesis
    proof (cases "nd (cur @ [c])")
      case None
      let ?nd1 = "nd(cur @ [c] \<mapsto> Dir)"
      have "\<exists>nd'. makedirs_from ?nd1 (cur @ [c]) cs = Inr nd'"
      proof (rule Cons.IH)
        show "wf_nodes ?nd1" using Cons.prems(1,2) by (rule wf_nodes_mkdir)
        show "is_dir ?nd1 (cur @ [c])" by (simp add: is_dir_def)
        show "\<forall>q\<in>set (visits (cur @ [c]) cs). \<forall>t. ?nd1 q \<noteq> Some (File t)"
          using rest by simp
      qed
      with None True Cons.prems(2) show ?thesis by simp
    next
      case (Some n)
      with nofile have n: "n = Dir" by (cases n) auto
      with Some have "is_dir nd (cur @ [c])" by (simp add: is_dir_def)
      from Cons.IH [OF Cons.prems(1) this rest] Some n True Cons.prems(2) show ?thesis by simp
    qed
  qed
qed

lemma build_Inr:
  assumes "build X s d f = Inr g"
  shows "cwd g = resolve (cwd f) d"
    and "clock g = clock f"
    and "nodes g (resolve (cwd f) d @ [''litex_core.v'']) =
           Some (File (get_verilog X s ''top_usb'' (clock f)))"
proof -
  from assms obtain f1 f2 where m: "makedirs f d = Inr f1" and c: "chdir f1 d = Inr f2"
    and w: "write_file f2 ''litex_core.v'' (get_verilog X s ''top_usb'' (clock f2)) = Inr g"
    by (auto simp: build_def and_then_def Let_def split: sum.splits)
  from m obtain nd where walk: "makedirs_from (nodes f) (start_dir (cwd f) d) (split_slash d) = Inr nd"
    and f1: "f1 = f\<lparr>nodes := nd\<rparr>"
    by (auto simp: makedirs_def and_then_def split: if_splits sum.splits)
  from c f1 makedirs_from_walk [OF walk] have f2: "f2 = f\<lparr>nodes := nd, cwd := resolve (cwd f) d\<rparr>"
    by (auto simp: chdir_def resolve_def split: if_splits)
  from w f2 show "cwd g = resolve (cwd f) d" and "clock g = clock f"
    and "nodes g (resolve (cwd f) d @ [''litex_core.v'']) =
           Some (File (get_verilog X s ''top_usb'' (clock f)))"
    by (auto simp: write_file_def split: if_splits option.splits node.splits)
qed

lemma build_succeeds:
  assumes "commit_ready f d"
  shows "\<exists>g. build X s d f = Inr g \<and>
       cwd g = resolve (cwd f) d \<and>
       clock g = clock f \<and>
       is_dir (nodes g) (cwd g) \<and>
       nodes g (resolve (cwd f) d @ [''litex_core.v'']) =
         Some (File (get_verilog X s ''top_usb'' (clock f))) \<and>
       (\<forall>q\<in>set (visits (start_dir (cwd f) d) (split_slash d)). is_dir (nodes g) q) \<and>
       (\<forall>p. p \<noteq> resolve (cwd f) d @ [''litex_core.v''] \<and> nodes f p \<noteq> None \<longrightarrow>
          nodes g p = nodes f p) \<and>
       (\<forall>p. nodes g p \<noteq> nodes f p \<longrightarrow>
          p = resolve (cwd f) d @ [''litex_core.v''] \<or>
          (nodes f p = None \<and> nodes g p = Some Dir \<and>
           p \<in> set (visits (start_dir (cwd f) d) (split_slash d))))"
proof -
  let ?st = "start_dir (cwd f) d"
  let ?cs = "split_slash d"
  let ?q = "resolve (cwd f) d"
  let ?art = "?q @ [''litex_core.v'']"
  let ?txt = "get_verilog X s ''top_usb'' (clock f)"
  from assms have ne: "d \<noteq> []" and wf: "wf_nodes (nodes f)" and cw: "is_dir (nodes f) (cwd f)"
    and nofile: "\<forall>q\<in>set (visits ?st ?cs). \<forall>t. nodes f q \<noteq> Some (File t)"
    and off: "?art \<notin> set (visits ?st ?cs)"
    and free: "nodes f ?art \<noteq> Some Dir"
    by (simp_all add: commit_ready_def wf_fs_def)
  have st: "is_dir (nodes f) ?st"
    using cw by (simp add: start_dir_def is_dir_def)
  from makedirs_from_ok [OF wf st nofile] obtain nd where
    walk: "makedirs_from (nodes f) ?st ?cs = Inr nd" by blast
  have mk: "makedirs f d = Inr (f\<lparr>nodes := nd\<rparr>)"
    using ne walk by (simp add: makedirs_def and_then_def)
  have wd: "walk_dirs nd ?st ?cs = Some ?q"
    using makedirs_from_walk [OF walk] by (simp add: resolve_def)
  have cd: "chdir (f\<lparr>nodes := nd\<rparr>) d = Inr (f\<lparr>nodes := nd, cwd := ?q\<rparr>)"
    using ne wd by (simp add: chdir_def)
  have target: "is_dir nd ?q"
  proof -
    have "\<And>n cur cs q. walk_dirs n cur cs = Some q \<Longrightarrow> is_dir n q"
    proof -
      fix n cur cs q show "walk_dirs n cur cs = Some q \<Longrightarrow> is_dir n q"
        by (induction cs arbitrary: cur) (auto split: if_splits)
    qed
    from this [OF wd] show ?thesis .
  qed
  have art_nd: "nd ?art = nodes f ?art"
    using makedirs_from_changes [OF walk, of ?art] off by blast
  let ?g = "f\<lparr>nodes := nd(?art \<mapsto> File ?txt), cwd := ?q\<rparr>"
  have wr: "write_file (f\<lparr>nodes := nd, cwd := ?q\<rparr>) ''litex_core.v'' ?txt = Inr ?g"
    using free art_nd target by (auto simp: write_file_def split: option.splits node.splits)
  have run: "build X s d f = Inr ?g"
    by (simp add: build_def and_then_def mk cd wr Let_def)
  have c1: "cwd ?g = ?q" and c2: "clock ?g = clock f" by simp_all
  have c3: "is_dir (nodes ?g) (cwd ?g)"
    using target by (auto simp: is_dir_def)
  have c4: "nodes ?g ?art = Some (File ?txt)" by simp
  have c5: "\<forall>q\<in>set (visits ?st ?cs). is_dir (nodes ?g) q"
  proof
    fix q assume q: "q \<in> set (visits ?st ?cs)"
    with off have "q \<noteq> ?art" by auto
    with makedirs_from_visits [OF walk q] show "is_dir (nodes ?g) q"
      by (auto simp: is_dir_def)
  qed
  have c6: "\<forall>p. p \<noteq> ?art \<and> nodes f p \<noteq> None \<longrightarrow> nodes ?g p = nodes f p"
    using makedirs_from_keeps [OF walk] by simp
  have c7: "\<forall>p. nodes ?g p \<noteq> nodes f p \<longrightarrow>
          p = ?art \<or> (nodes f p = None \<and> nodes ?g p = Some Dir \<and> p \<in> set (visits ?st ?cs))"
  proof (intro allI impI)
    fix p assume ne: "nodes ?g p \<noteq> nodes f p"
    show "p = ?art \<or> (nodes f p = None \<and> nodes ?g p = Some Dir \<and> p \<in> set (visits ?st ?cs))"
    proof (cases "p = ?art")
      case True
      then show ?thesis by simp
    next
      case False
      with ne have "nd p \<noteq> nodes f p" by simp
      from makedirs_from_changes [OF walk this] False show ?thesis by simp
    qed
  qed
  from run c1 c2 c3 c4 c5 c6 c7 show ?thesis by blast
qed

lemma example_fs_wf: "wf_fs example_fs"
  by (auto simp: wf_fs_def wf_nodes_def example_fs_def is_dir_def split: if_splits)

lemma example_commit_ready:
  "commit_ready (example_fs\<lparr>clock := t\<rparr>) ''build''"
  "commit_ready (example_fs\<lparr>clock := t\<rparr>) ''.''"
  "commit_ready (example_fs\<lparr>clock := t\<rparr>) ''/out''"
  using example_fs_wf
  by (auto simp: commit_ready_def wf_fs_def example_fs_def resolve_def start_dir_def absolute_def
      step_def plain_def)

lemma example_paths:
  "resolve (cwd example_fs) ''build'' = [''work'', ''build'']"
  "resolve (cwd example_fs) ''.'' = [''work'']"
  "resolve (cwd example_fs) ''/out'' = [''out'']"
  "visits (start_dir (cwd example_fs) ''build'') (split_slash ''build'') = [[''work'', ''build'']]"
  "visits (start_dir (cwd example_fs) ''.'') (split_slash ''.'') = [[''work'']]"
  by (simp_all add: resolve_def start_dir_def absolute_def step_def plain_def example_fs_def)

lemma example_text:
  "get_verilog example_ext example_soc_axi ''top_usb'' t =
     ''top_usb sys_rst sys_clk clk12 clk48 usb irq_gpio irq_timer0 irq_usb''"
  by (simp add: example_ext_def example_soc_axi_def)

text \<open>
  C7. In a well-formed file system, for an output directory whose path is not empty,
  with no regular file on the way and with the artifact's name neither on the way nor
  taken by a directory (the cases in which the calls raise): the commit succeeds;
  the working directory becomes the directory the path names, followed from the
  starting working directory, and it is a directory; the artifact is written in it
  under the fixed name \<open>litex_core.v\<close>, so where it lies depends on the output
  directory alone, not on the design or on what the file system holds; every position
  on the way is a directory afterwards; what existed before is unchanged apart from
  the artifact; and the only entries added are the artifact and the directories that
  were missing.
\<close>

theorem build_commits:
  assumes "d \<noteq> []"
    and "wf_fs f"
    and "\<forall>q\<in>set (visits (start_dir (cwd f) d) (split_slash d)). \<forall>t. nodes f q \<noteq> Some (File t)"
    and "resolve (cwd f) d @ [''litex_core.v''] \<notin> set (visits (start_dir (cwd f) d) (split_slash d))"
    and "nodes f (resolve (cwd f) d @ [''litex_core.v'']) \<noteq> Some Dir"
  shows
    "\<exists>g. build X s d f = Inr g \<and>
       cwd g = resolve (cwd f) d \<and>
       is_dir (nodes g) (cwd g) \<and>
       nodes g (cwd g @ [''litex_core.v'']) = Some (File (get_verilog X s ''top_usb'' (clock f))) \<and>
       (\<forall>q\<in>set (visits (start_dir (cwd f) d) (split_slash d)). is_dir (nodes g) q) \<and>
       (\<forall>p. p \<noteq> cwd g @ [''litex_core.v''] \<and> nodes f p \<noteq> None \<longrightarrow> nodes g p = nodes f p) \<and>
       (\<forall>p. nodes g p \<noteq> nodes f p \<longrightarrow>
          p = cwd g @ [''litex_core.v''] \<or>
          (nodes f p = None \<and> nodes g p = Some Dir \<and>
           p \<in> set (visits (start_dir (cwd f) d) (split_slash d)))) \<and>
       (\<forall>X' s' f' g'. cwd f' = cwd f \<and> build X' s' d f' = Inr g' \<longrightarrow> cwd g' = cwd g)"
proof -
  let ?vs = "visits (start_dir (cwd f) d) (split_slash d)"
  let ?art = "resolve (cwd f) d @ [''litex_core.v'']"
  have ready: "commit_ready f d"
    using assms by (simp add: commit_ready_def)
  obtain g where g: "build X s d f = Inr g \<and>
       cwd g = resolve (cwd f) d \<and>
       clock g = clock f \<and>
       is_dir (nodes g) (cwd g) \<and>
       nodes g ?art = Some (File (get_verilog X s ''top_usb'' (clock f))) \<and>
       (\<forall>q\<in>set ?vs. is_dir (nodes g) q) \<and>
       (\<forall>p. p \<noteq> ?art \<and> nodes f p \<noteq> None \<longrightarrow> nodes g p = nodes f p) \<and>
       (\<forall>p. nodes g p \<noteq> nodes f p \<longrightarrow>
          p = ?art \<or> (nodes f p = None \<and> nodes g p = Some Dir \<and> p \<in> set ?vs))"
    using build_succeeds [OF ready, of X s] ..
  from g have run: "build X s d f = Inr g" by (rule conjunct1)
  from g have c: "cwd g = resolve (cwd f) d" by (elim conjE)
  have art: "cwd g @ [''litex_core.v''] = ?art" by (simp only: c)
  from g have c1: "is_dir (nodes g) (cwd g)" by (elim conjE)
  from g have c2: "nodes g (cwd g @ [''litex_core.v'']) =
      Some (File (get_verilog X s ''top_usb'' (clock f)))"
    unfolding art by (elim conjE)
  from g have c3: "\<forall>q\<in>set ?vs. is_dir (nodes g) q" by (elim conjE)
  from g have c4: "\<forall>p. p \<noteq> cwd g @ [''litex_core.v''] \<and> nodes f p \<noteq> None \<longrightarrow>
      nodes g p = nodes f p"
    unfolding art by (elim conjE)
  from g have c5: "\<forall>p. nodes g p \<noteq> nodes f p \<longrightarrow>
          p = cwd g @ [''litex_core.v''] \<or>
          (nodes f p = None \<and> nodes g p = Some Dir \<and> p \<in> set ?vs)"
    unfolding art by (elim conjE)
  have c6: "\<forall>X' s' f' g'. cwd f' = cwd f \<and> build X' s' d f' = Inr g' \<longrightarrow> cwd g' = cwd g"
  proof (intro allI impI)
    fix X' s' f' g' assume a: "cwd f' = cwd f \<and> build X' s' d f' = Inr g'"
    then have "build X' s' d f' = Inr g'" by (rule conjunct2)
    then have "cwd g' = resolve (cwd f') d" by (rule build_Inr(1))
    with a c show "cwd g' = cwd g" by simp
  qed
  show ?thesis
    using run c c1 c2 c3 c4 c5 c6 by (intro exI [of _ g] conjI)
qed

theorem build_commits_witness:
  "''build'' \<noteq> [] \<and> wf_fs example_fs \<and>
   (\<exists>g. build example_ext example_soc_axi ''build'' example_fs = Inr g \<and>
        cwd g = [''work'', ''build''] \<and>
        nodes g [''work'', ''build'', ''litex_core.v''] =
          Some (File ''top_usb sys_rst sys_clk clk12 clk48 usb irq_gpio irq_timer0 irq_usb'') \<and>
        nodes g [''work'', ''build''] = Some Dir \<and>
        nodes g [''work''] = Some Dir) \<and>
   (\<exists>g. build example_ext example_soc_axi ''.'' example_fs = Inr g \<and>
        cwd g = [''work''] \<and>
        nodes g [''work'', ''litex_core.v''] =
          Some (File ''top_usb sys_rst sys_clk clk12 clk48 usb irq_gpio irq_timer0 irq_usb'') \<and>
        nodes g [''work'', ''.''] = None)"
proof -
  have r1: "commit_ready example_fs ''build''" and r2: "commit_ready example_fs ''.''"
    using example_commit_ready [of "clock example_fs"] by simp_all
  have w: "nodes example_fs [''work''] = Some Dir"
    and n: "nodes example_fs [''work'', ''.''] = None"
    by (simp_all add: example_fs_def)
  note h1 = r1 [unfolded commit_ready_def]
  note h2 = r2 [unfolded commit_ready_def]
  from h1 have a1: "''build'' \<noteq> []" and a2: "wf_fs example_fs"
    and a3: "\<forall>q\<in>set (visits (start_dir (cwd example_fs) ''build'') (split_slash ''build'')).
        \<forall>t. nodes example_fs q \<noteq> Some (File t)"
    and a4: "resolve (cwd example_fs) ''build'' @ [''litex_core.v'']
        \<notin> set (visits (start_dir (cwd example_fs) ''build'') (split_slash ''build''))"
    and a5: "nodes example_fs (resolve (cwd example_fs) ''build'' @ [''litex_core.v'']) \<noteq> Some Dir"
    by blast+
  from h2 have b1: "''.'' \<noteq> []"
    and b3: "\<forall>q\<in>set (visits (start_dir (cwd example_fs) ''.'') (split_slash ''.'')).
        \<forall>t. nodes example_fs q \<noteq> Some (File t)"
    and b4: "resolve (cwd example_fs) ''.'' @ [''litex_core.v'']
        \<notin> set (visits (start_dir (cwd example_fs) ''.'') (split_slash ''.''))"
    and b5: "nodes example_fs (resolve (cwd example_fs) ''.'' @ [''litex_core.v'']) \<noteq> Some Dir"
    by blast+
  from build_commits [OF a1 a2 a3 a4 a5, of example_ext example_soc_axi] obtain g where
    g: "build example_ext example_soc_axi ''build'' example_fs = Inr g"
    and g1: "cwd g = resolve (cwd example_fs) ''build''"
    and g2: "nodes g (cwd g @ [''litex_core.v'']) =
        Some (File (get_verilog example_ext example_soc_axi ''top_usb'' (clock example_fs)))"
    and g3: "\<forall>q\<in>set (visits (start_dir (cwd example_fs) ''build'') (split_slash ''build'')).
        is_dir (nodes g) q"
    and g4: "\<forall>p. p \<noteq> cwd g @ [''litex_core.v''] \<and> nodes example_fs p \<noteq> None \<longrightarrow>
        nodes g p = nodes example_fs p"
    by blast
  from g1 have g1': "cwd g = [''work'', ''build'']" by (simp add: example_paths)
  from g2 have g2': "nodes g [''work'', ''build'', ''litex_core.v''] =
      Some (File ''top_usb sys_rst sys_clk clk12 clk48 usb irq_gpio irq_timer0 irq_usb'')"
    by (simp add: g1' example_text)
  from g3 [unfolded example_paths] have g3': "nodes g [''work'', ''build''] = Some Dir"
    by (simp add: is_dir_def)
  from g4 w have g4': "nodes g [''work''] = Some Dir" by (simp add: g1')
  from build_commits [OF b1 a2 b3 b4 b5, of example_ext example_soc_axi] obtain k where
    k: "build example_ext example_soc_axi ''.'' example_fs = Inr k"
    and k1: "cwd k = resolve (cwd example_fs) ''.''"
    and k2: "nodes k (cwd k @ [''litex_core.v'']) =
        Some (File (get_verilog example_ext example_soc_axi ''top_usb'' (clock example_fs)))"
    and k5: "\<forall>p. nodes k p \<noteq> nodes example_fs p \<longrightarrow>
          p = cwd k @ [''litex_core.v''] \<or>
          (nodes example_fs p = None \<and> nodes k p = Some Dir \<and>
           p \<in> set (visits (start_dir (cwd example_fs) ''.'') (split_slash ''.'')))"
    by blast
  from k1 have k1': "cwd k = [''work'']" by (simp add: example_paths)
  from k2 have k2': "nodes k [''work'', ''litex_core.v''] =
      Some (File ''top_usb sys_rst sys_clk clk12 clk48 usb irq_gpio irq_timer0 irq_usb'')"
    by (simp add: k1' example_text)
  have k3': "nodes k [''work'', ''.''] = None"
  proof (rule ccontr)
    assume "nodes k [''work'', ''.''] \<noteq> None"
    with n have "nodes k [''work'', ''.''] \<noteq> nodes example_fs [''work'', ''.'']" by simp
    with k5 [unfolded example_paths] have "[''work'', ''.''] = cwd k @ [''litex_core.v''] \<or>
        [''work'', ''.''] \<in> set [[''work'']]"
      by blast
    then show False by (simp add: k1')
  qed
  from a1 a2 g g1' g2' g3' g4' k k1' k2' k3' show ?thesis by blast
qed

subsection \<open>The bus axi\<close>

lemma generate_Inr:
  assumes "generate X a d f = Inr g"
  shows "\<exists>s. LiteXCore X a = Inr s \<and>
     nodes g (resolve (cwd f) d @ [''litex_core.v'']) =
       Some (File (get_verilog X s ''top_usb'' (clock f)))"
proof -
  from assms obtain s where s: "LiteXCore X a = Inr s" and b: "build X s d f = Inr g"
    by (auto simp: generate_def and_then_def split: sum.splits)
  from build_Inr(3) [OF b] s show ?thesis by simp
qed

lemma generate_writes:
  assumes "LiteXCore X a = Inr s" and "commit_ready f d"
  shows "\<exists>g. generate X a d f = Inr g \<and>
     nodes g (resolve (cwd f) d @ [''litex_core.v'']) =
       Some (File (get_verilog X s ''top_usb'' (clock f)))"
proof -
  from build_succeeds [OF assms(2), of X s] obtain g where "build X s d f = Inr g"
    and "nodes g (resolve (cwd f) d @ [''litex_core.v'']) =
       Some (File (get_verilog X s ''top_usb'' (clock f)))"
    by blast
  with assms(1) show ?thesis by (simp add: generate_def and_then_def)
qed

lemma example_main_axi:
  "(case main example_ext (example_cli ''axi'') example_fs of
      Inl e \<Rightarrow> False
    | Inr f \<Rightarrow>
        nodes f [''work'', ''build'', ''litex_core.v''] =
          Some (File ''top_usb sys_rst sys_clk clk12 clk48 usb irq_gpio irq_timer0 irq_usb''))"
proof -
  have ready: "commit_ready example_fs ''build''"
    using example_commit_ready(1) [of "clock example_fs"] by simp
  from generate_writes [OF example_axi ready] obtain g where
    g: "generate example_ext (example_args ''axi'') ''build'' example_fs = Inr g"
    and n: "nodes g (resolve (cwd example_fs) ''build'' @ [''litex_core.v'']) =
       Some (File (get_verilog example_ext example_soc_axi ''top_usb'' (clock example_fs)))"
    by blast
  have "main example_ext (example_cli ''axi'') example_fs = Inr g"
    using g by (simp add: main_def example_args_def example_cli_def)
  with n show ?thesis by (simp add: example_paths example_text)
qed

text \<open>
  C1, as the code behaves. With the bus \<open>axi\<close> the composer never raises
  \<open>UnsupportedBus\<close> and does not fall back to wishbone: the bus branch is skipped (no
  master is added to the fabric and no \<open>wb\<close> pin group is registered) and the
  interrupt export runs on the SoC as it stands. When the interrupt sources are
  distinct names of modules with an event line the composition succeeds. The groups
  registered beyond the static catalog are then exactly the \<open>irq_<name>\<close> groups of
  the sorted sources, and a run whose commit meets no file-system error writes the
  artifact for the composed SoC.
\<close>

theorem axi_skips_bus_attachment:
  assumes "map_of (kwargs a) ''bus'' = Some (VStr ''axi'')"
  shows
    "LiteXCore X a \<noteq> Inl (UnsupportedBus v) \<and>
     LiteXCore X a =
       irq_export (sort (irq_locs (SoCMini_init X (sys_clk_freq a) (kwargs a))))
         (soc_before_bus X a) \<and>
     (distinct (map fst (irq_locs (SoCMini_init X (sys_clk_freq a) (kwargs a)))) \<and>
      (\<forall>n\<in>set (map fst (irq_locs (SoCMini_init X (sys_clk_freq a) (kwargs a)))).
         map_of (soc_attrs (soc_before_bus X a)) n = Some True) \<longrightarrow>
      (\<exists>s1. LiteXCore X a = Inr s1)) \<and>
     (LiteXCore X a = Inr s \<longrightarrow>
        soc_bus s = base_bus (SoCMini_init X (sys_clk_freq a) (kwargs a)) \<and>
        (''wb'', 0) \<notin> resolvable (soc_platform s) \<and>
        groups (soc_platform s) =
          io @ map (\<lambda>x. (''irq_'' @ fst x, 0, [Plain (Pins 1)]))
                 (sort (irq_locs (SoCMini_init X (sys_clk_freq a) (kwargs a))))) \<and>
     (LiteXCore X a = Inr s \<and> commit_ready f d \<longrightarrow>
        (\<exists>g. generate X a d f = Inr g \<and>
             nodes g (resolve (cwd f) d @ [''litex_core.v'']) =
               Some (File (get_verilog X s ''top_usb'' (clock f)))))"
proof -
  have ne: "VStr ''axi'' \<noteq> VStr ''wishbone''" by simp
  have skip: "LiteXCore X a =
       irq_export (sort (irq_locs (SoCMini_init X (sys_clk_freq a) (kwargs a))))
         (soc_before_bus X a)"
    using assms ne by (rule LiteXCore_no_wishbone)
  have ok: "distinct (map fst (irq_locs (SoCMini_init X (sys_clk_freq a) (kwargs a)))) \<and>
      (\<forall>n\<in>set (map fst (irq_locs (SoCMini_init X (sys_clk_freq a) (kwargs a)))).
         map_of (soc_attrs (soc_before_bus X a)) n = Some True) \<longrightarrow>
      (\<exists>s1. LiteXCore X a = Inr s1)"
    using LiteXCore_succeeds [OF assms, of X] by simp
  have shape: "LiteXCore X a = Inr s \<longrightarrow>
        soc_bus s = base_bus (SoCMini_init X (sys_clk_freq a) (kwargs a)) \<and>
        (''wb'', 0) \<notin> resolvable (soc_platform s) \<and>
        groups (soc_platform s) =
          io @ map (\<lambda>x. (''irq_'' @ fst x, 0, [Plain (Pins 1)]))
                 (sort (irq_locs (SoCMini_init X (sys_clk_freq a) (kwargs a))))"
  proof
    assume run: "LiteXCore X a = Inr s"
    then have s: "s = composed_soc X a" by (rule LiteXCore_Inr)
    have "soc_bus (composed_soc X a) = base_bus (SoCMini_init X (sys_clk_freq a) (kwargs a))"
      using assms by (simp add: composed_soc_def soc_before_bus_def Let_def)
    moreover have "groups (soc_platform (composed_soc X a)) =
          io @ map (\<lambda>x. (''irq_'' @ fst x, 0, [Plain (Pins 1)]))
                 (sort (irq_locs (SoCMini_init X (sys_clk_freq a) (kwargs a))))"
      using assms by (simp add: composed_soc_def Let_def)
    moreover from this have "(''wb'', 0) \<notin> resolvable (soc_platform (composed_soc X a))"
      by (auto simp: resolvable_def io_def ident_def)
    ultimately show "soc_bus s = base_bus (SoCMini_init X (sys_clk_freq a) (kwargs a)) \<and>
        (''wb'', 0) \<notin> resolvable (soc_platform s) \<and>
        groups (soc_platform s) =
          io @ map (\<lambda>x. (''irq_'' @ fst x, 0, [Plain (Pins 1)]))
                 (sort (irq_locs (SoCMini_init X (sys_clk_freq a) (kwargs a))))"
      by (simp add: s)
  qed
  have art: "LiteXCore X a = Inr s \<and> commit_ready f d \<longrightarrow>
        (\<exists>g. generate X a d f = Inr g \<and>
             nodes g (resolve (cwd f) d @ [''litex_core.v'']) =
               Some (File (get_verilog X s ''top_usb'' (clock f))))"
    using generate_writes by blast
  from LiteXCore_never_UnsupportedBus skip ok shape art show ?thesis by blast
qed

theorem axi_skips_bus_attachment_witness:
  "map_of (kwargs (example_args ''axi'')) ''bus'' = Some (VStr ''axi'') \<and>
   LiteXCore example_ext (example_args ''axi'') = Inr example_soc_axi \<and>
   commit_ready example_fs ''build'' \<and>
   soc_bus example_soc_axi = \<lparr>masters = [], slots = 1\<rparr> \<and>
   groups (soc_platform example_soc_axi) =
     io @ [(''irq_gpio'', 0, [Plain (Pins 1)]), (''irq_timer0'', 0, [Plain (Pins 1)]),
           (''irq_usb'', 0, [Plain (Pins 1)])] \<and>
   (\<exists>g. generate example_ext (example_args ''axi'') ''build'' example_fs = Inr g \<and>
        nodes g [''work'', ''build'', ''litex_core.v''] =
          Some (File ''top_usb sys_rst sys_clk clk12 clk48 usb irq_gpio irq_timer0 irq_usb''))"
proof -
  have bus: "map_of (kwargs (example_args ''axi'')) ''bus'' = Some (VStr ''axi'')"
    by (simp add: example_args_def default_args_def soc_argdict_def example_cli_def)
  have run: "LiteXCore example_ext (example_args ''axi'') = Inr example_soc_axi"
    by (rule example_axi)
  have ready: "commit_ready example_fs ''build''"
    using example_commit_ready(1) [of "clock example_fs"] by simp
  have fields: "soc_bus example_soc_axi = \<lparr>masters = [], slots = 1\<rparr> \<and>
     groups (soc_platform example_soc_axi) =
     io @ [(''irq_gpio'', 0, [Plain (Pins 1)]), (''irq_timer0'', 0, [Plain (Pins 1)]),
           (''irq_usb'', 0, [Plain (Pins 1)])]"
    by (simp add: example_soc_axi_def)
  from axi_skips_bus_attachment [OF bus, where X = example_ext and s = example_soc_axi
      and d = "''build''" and f = example_fs] run ready
  obtain g where "generate example_ext (example_args ''axi'') ''build'' example_fs = Inr g"
    and "nodes g (resolve (cwd example_fs) ''build'' @ [''litex_core.v'']) =
       Some (File (get_verilog example_ext example_soc_axi ''top_usb'' (clock example_fs)))"
    by blast
  then have "\<exists>g. generate example_ext (example_args ''axi'') ''build'' example_fs = Inr g \<and>
        nodes g [''work'', ''build'', ''litex_core.v''] =
          Some (File ''top_usb sys_rst sys_clk clk12 clk48 usb irq_gpio irq_timer0 irq_usb'')"
    by (auto simp: example_paths example_text)
  with bus run ready fields show ?thesis by blast
qed

text \<open>
  C1, as stated, fails: on the example collaborators the configuration with the bus
  \<open>axi\<close> composes, registers the groups \<open>irq_gpio\<close>, \<open>irq_timer0\<close> and \<open>irq_usb\<close>
  beyond the catalog, and the run writes the artifact.
\<close>

theorem axi_is_not_rejected:
  "map_of (kwargs (example_args ''axi'')) ''bus'' = Some (VStr ''axi'') \<and>
   LiteXCore example_ext (example_args ''axi'') = Inr example_soc_axi \<and>
   LiteXCore example_ext (example_args ''axi'') \<noteq> Inl (UnsupportedBus ''axi'') \<and>
   (''irq_usb'', 0) \<in> resolvable (soc_platform example_soc_axi) \<and>
   (''irq_usb'', 0) \<notin> resolvable (Platform io) \<and>
   (case main example_ext (example_cli ''axi'') example_fs of
      Inl e \<Rightarrow> False
    | Inr f \<Rightarrow>
        nodes f [''work'', ''build'', ''litex_core.v''] =
          Some (File ''top_usb sys_rst sys_clk clk12 clk48 usb irq_gpio irq_timer0 irq_usb''))"
proof -
  have bus: "map_of (kwargs (example_args ''axi'')) ''bus'' = Some (VStr ''axi'')"
    by (simp add: example_args_def default_args_def soc_argdict_def example_cli_def)
  have run: "LiteXCore example_ext (example_args ''axi'') = Inr example_soc_axi"
    by (rule example_axi)
  have reg: "(''irq_usb'', 0) \<in> resolvable (soc_platform example_soc_axi) \<and>
      (''irq_usb'', 0) \<notin> resolvable (Platform io)"
    by (simp add: resolvable_def example_soc_axi_def Platform_def io_def ident_def)
  note art = example_main_axi
  from bus run reg art show ?thesis by simp
qed

subsection \<open>Two runs with the same configuration\<close>

lemma soc_before_bus_get_verilog:
  "soc_before_bus (X\<lparr>get_verilog := e\<rparr>) a = soc_before_bus X a"
  by (simp add: soc_before_bus_def LiteXCore_mem_map_def)

lemma wishbone_master_get_verilog:
  "wishbone_master (X\<lparr>get_verilog := e\<rparr>) s = wishbone_master X s"
  by (simp add: wishbone_master_def)

lemma LiteXCore_get_verilog:
  "LiteXCore (X\<lparr>get_verilog := e\<rparr>) a = LiteXCore X a"
  by (simp add: LiteXCore_prefix soc_before_bus_get_verilog wishbone_master_get_verilog
        cong: if_cong)

lemma example_text_wishbone:
  "get_verilog example_ext example_soc_wishbone ''top_usb'' t =
     ''top_usb sys_rst sys_clk clk12 clk48 usb wb irq_gpio irq_timer0 irq_usb''"
  by (simp add: example_ext_def example_soc_wishbone_def)

lemma example_stamping:
  "LiteXCore stamping_ext (example_args ''wishbone'') = Inr example_soc_wishbone"
  unfolding stamping_ext_def by (simp only: LiteXCore_get_verilog example_wishbone)

lemma stamping_text:
  "get_verilog stamping_ext s ''top_usb'' 1 = ''top_usb |''"
  "get_verilog stamping_ext s ''top_usb'' 2 = ''top_usb ||''"
  by (simp_all add: stamping_ext_def numeral_2_eq_2)

lemma stamping_runs:
  "\<exists>g. generate stamping_ext (example_args ''wishbone'') ''build''
          (example_fs\<lparr>clock := t\<rparr>) = Inr g \<and>
       nodes g [''work'', ''build'', ''litex_core.v''] =
         Some (File (get_verilog stamping_ext example_soc_wishbone ''top_usb'' t))"
  using generate_writes [OF example_stamping example_commit_ready(1) [of t]]
  by (simp add: example_paths)

text \<open>
  C9, as the code behaves. The composer sorts the one unordered collection it walks:
  with the interrupt registry (a dict, so with distinct names) filled in any other
  order the composition is the same. Each run writes as its artifact the text the
  emitter gives for the composed design at the run's clock reading, and a run whose
  commit meets no file-system error does write it. So two runs with
  the same configuration, in whatever output directories and with whatever registry
  order, write the same bytes when the emitter gives the same text at both clock
  readings.
\<close>

theorem generate_deterministic:
  assumes "distinct (map fst (irq_locs (SoCMini_init X (sys_clk_freq a) (kwargs a))))"
    and "distinct (map fst (reorder (irq_locs (SoCMini_init X (sys_clk_freq a) (kwargs a)))))"
    and "set (reorder (irq_locs (SoCMini_init X (sys_clk_freq a) (kwargs a)))) =
         set (irq_locs (SoCMini_init X (sys_clk_freq a) (kwargs a)))"
  shows
    "LiteXCore (with_registry_order reorder X) a = LiteXCore X a \<and>
     (generate X a d1 f1 = Inr g1 \<longrightarrow>
        (\<exists>s. LiteXCore X a = Inr s \<and>
             nodes g1 (resolve (cwd f1) d1 @ [''litex_core.v'']) =
               Some (File (get_verilog X s ''top_usb'' (clock f1))))) \<and>
     (LiteXCore X a = Inr s \<and> commit_ready f2 d2 \<longrightarrow>
        (\<exists>g. generate (with_registry_order reorder X) a d2 f2 = Inr g \<and>
             nodes g (resolve (cwd f2) d2 @ [''litex_core.v'']) =
               Some (File (get_verilog X s ''top_usb'' (clock f2))))) \<and>
     (LiteXCore X a = Inr s \<and>
      get_verilog X s ''top_usb'' (clock f2) = get_verilog X s ''top_usb'' (clock f1) \<and>
      generate X a d1 f1 = Inr g1 \<and>
      generate (with_registry_order reorder X) a d2 f2 = Inr g2 \<longrightarrow>
        nodes g1 (resolve (cwd f1) d1 @ [''litex_core.v'']) =
        nodes g2 (resolve (cwd f2) d2 @ [''litex_core.v'']))"
proof -
  let ?X' = "with_registry_order reorder X"
  have same: "LiteXCore ?X' a = LiteXCore X a"
    using assms by (rule LiteXCore_registry_order)
  have gv: "get_verilog ?X' = get_verilog X"
    by (simp add: with_registry_order_def)
  have one: "generate X a d1 f1 = Inr g1 \<longrightarrow>
        (\<exists>s. LiteXCore X a = Inr s \<and>
             nodes g1 (resolve (cwd f1) d1 @ [''litex_core.v'']) =
               Some (File (get_verilog X s ''top_usb'' (clock f1))))"
    using generate_Inr by blast
  have writes: "LiteXCore X a = Inr s \<and> commit_ready f2 d2 \<longrightarrow>
        (\<exists>g. generate ?X' a d2 f2 = Inr g \<and>
             nodes g (resolve (cwd f2) d2 @ [''litex_core.v'']) =
               Some (File (get_verilog X s ''top_usb'' (clock f2))))"
  proof
    assume a: "LiteXCore X a = Inr s \<and> commit_ready f2 d2"
    then have s': "LiteXCore ?X' a = Inr s" and r: "commit_ready f2 d2"
      using same by simp_all
    from generate_writes [OF s' r] gv show "\<exists>g. generate ?X' a d2 f2 = Inr g \<and>
             nodes g (resolve (cwd f2) d2 @ [''litex_core.v'']) =
               Some (File (get_verilog X s ''top_usb'' (clock f2)))"
      by simp
  qed
  have two: "LiteXCore X a = Inr s \<and>
      get_verilog X s ''top_usb'' (clock f2) = get_verilog X s ''top_usb'' (clock f1) \<and>
      generate X a d1 f1 = Inr g1 \<and> generate ?X' a d2 f2 = Inr g2 \<longrightarrow>
        nodes g1 (resolve (cwd f1) d1 @ [''litex_core.v'']) =
        nodes g2 (resolve (cwd f2) d2 @ [''litex_core.v''])"
  proof
    assume a: "LiteXCore X a = Inr s \<and>
      get_verilog X s ''top_usb'' (clock f2) = get_verilog X s ''top_usb'' (clock f1) \<and>
      generate X a d1 f1 = Inr g1 \<and> generate ?X' a d2 f2 = Inr g2"
    then have s: "LiteXCore X a = Inr s"
      and e: "get_verilog X s ''top_usb'' (clock f2) = get_verilog X s ''top_usb'' (clock f1)"
      and r1: "generate X a d1 f1 = Inr g1" and r2: "generate ?X' a d2 f2 = Inr g2"
      by blast+
    from generate_Inr [OF r1] s have n1: "nodes g1 (resolve (cwd f1) d1 @ [''litex_core.v'']) =
        Some (File (get_verilog X s ''top_usb'' (clock f1)))"
      by simp
    from generate_Inr [OF r2] s same gv have n2: "nodes g2 (resolve (cwd f2) d2 @ [''litex_core.v'']) =
        Some (File (get_verilog X s ''top_usb'' (clock f2)))"
      by simp
    from n1 n2 e show "nodes g1 (resolve (cwd f1) d1 @ [''litex_core.v'']) =
        nodes g2 (resolve (cwd f2) d2 @ [''litex_core.v''])"
      by simp
  qed
  from same one writes two show ?thesis by (intro conjI)
qed

theorem generate_deterministic_witness:
  "distinct (map fst (irq_locs (SoCMini_init example_ext
       (sys_clk_freq (example_args ''wishbone'')) (kwargs (example_args ''wishbone''))))) \<and>
   set (rev (irq_locs (SoCMini_init example_ext
       (sys_clk_freq (example_args ''wishbone'')) (kwargs (example_args ''wishbone''))))) =
   set (irq_locs (SoCMini_init example_ext
       (sys_clk_freq (example_args ''wishbone'')) (kwargs (example_args ''wishbone'')))) \<and>
   rev (irq_locs (SoCMini_init example_ext
       (sys_clk_freq (example_args ''wishbone'')) (kwargs (example_args ''wishbone'')))) \<noteq>
   irq_locs (SoCMini_init example_ext
       (sys_clk_freq (example_args ''wishbone'')) (kwargs (example_args ''wishbone''))) \<and>
   LiteXCore (with_registry_order rev example_ext) (example_args ''wishbone'') =
     Inr example_soc_wishbone \<and>
   (\<exists>g1 g2.
      generate example_ext (example_args ''wishbone'') ''build'' example_fs = Inr g1 \<and>
      generate (with_registry_order rev example_ext) (example_args ''wishbone'') ''/out''
        (example_fs\<lparr>clock := 2\<rparr>) = Inr g2 \<and>
      nodes g1 [''work'', ''build'', ''litex_core.v''] =
        Some (File ''top_usb sys_rst sys_clk clk12 clk48 usb wb irq_gpio irq_timer0 irq_usb'') \<and>
      nodes g2 [''out'', ''litex_core.v''] = nodes g1 [''work'', ''build'', ''litex_core.v''])"
proof -
  let ?a = "example_args ''wishbone''"
  let ?l = "irq_locs (SoCMini_init example_ext (sys_clk_freq ?a) (kwargs ?a))"
  let ?X' = "with_registry_order rev example_ext"
  have l: "?l = [(''usb'', 0), (''timer0'', 1), (''gpio'', 2)]"
    by (simp add: example_ext_def example_base_def)
  have h1: "distinct (map fst ?l)" unfolding l by simp
  have h2: "distinct (map fst (rev ?l))" unfolding l by simp
  have h3: "set (rev ?l) = set ?l" by simp
  have ne: "rev ?l \<noteq> ?l" unfolding l by simp
  have e: "get_verilog example_ext example_soc_wishbone ''top_usb'' (clock (example_fs\<lparr>clock := 2\<rparr>)) =
           get_verilog example_ext example_soc_wishbone ''top_usb'' (clock example_fs)"
    by (simp add: example_ext_def)
  have r0: "commit_ready example_fs ''build''"
    using example_commit_ready(1) [of "clock example_fs"] by simp
  from generate_writes [OF example_wishbone r0] obtain g1 where
    g1: "generate example_ext ?a ''build'' example_fs = Inr g1"
    and n1: "nodes g1 (resolve (cwd example_fs) ''build'' @ [''litex_core.v'']) =
       Some (File (get_verilog example_ext example_soc_wishbone ''top_usb'' (clock example_fs)))"
    by blast
  have same0: "LiteXCore ?X' ?a = LiteXCore example_ext ?a"
    using generate_deterministic [where X = example_ext and a = ?a and reorder = rev,
        OF h1 h2 h3]
    by (rule conjunct1)
  then have run': "LiteXCore ?X' ?a = Inr example_soc_wishbone"
    by (simp only: example_wishbone)
  have "LiteXCore example_ext ?a = Inr example_soc_wishbone \<and>
      commit_ready (example_fs\<lparr>clock := 2\<rparr>) ''/out'' \<longrightarrow>
      (\<exists>g. generate ?X' ?a ''/out'' (example_fs\<lparr>clock := 2\<rparr>) = Inr g \<and>
        nodes g (resolve (cwd (example_fs\<lparr>clock := 2\<rparr>)) ''/out'' @ [''litex_core.v'']) =
          Some (File (get_verilog example_ext example_soc_wishbone ''top_usb''
                (clock (example_fs\<lparr>clock := 2\<rparr>)))))"
    by (rule generate_deterministic [where X = example_ext and a = ?a and reorder = rev
        and s = example_soc_wishbone and ?d2.0 = "''/out''"
        and ?f2.0 = "example_fs\<lparr>clock := 2\<rparr>", OF h1 h2 h3,
        THEN conjunct2, THEN conjunct2, THEN conjunct1])
  with example_wishbone example_commit_ready(3) [of 2] obtain g2 where
    g2: "generate ?X' ?a ''/out'' (example_fs\<lparr>clock := 2\<rparr>) = Inr g2"
    by blast
  note d = generate_deterministic [where X = example_ext and a = ?a and reorder = rev
      and s = example_soc_wishbone
      and ?d1.0 = "''build''" and ?d2.0 = "''/out''" and ?f1.0 = example_fs
      and ?f2.0 = "example_fs\<lparr>clock := 2\<rparr>" and ?g1.0 = g1 and ?g2.0 = g2,
      OF h1 h2 h3]
  from d have imp: "LiteXCore example_ext ?a = Inr example_soc_wishbone \<and>
      get_verilog example_ext example_soc_wishbone ''top_usb'' (clock (example_fs\<lparr>clock := 2\<rparr>)) =
        get_verilog example_ext example_soc_wishbone ''top_usb'' (clock example_fs) \<and>
      generate example_ext ?a ''build'' example_fs = Inr g1 \<and>
      generate ?X' ?a ''/out'' (example_fs\<lparr>clock := 2\<rparr>) = Inr g2 \<longrightarrow>
        nodes g1 (resolve (cwd example_fs) ''build'' @ [''litex_core.v'']) =
        nodes g2 (resolve (cwd (example_fs\<lparr>clock := 2\<rparr>)) ''/out'' @ [''litex_core.v''])"
    by (elim conjE)
  from imp example_wishbone e g1 g2
  have eq: "nodes g1 (resolve (cwd example_fs) ''build'' @ [''litex_core.v'']) =
        nodes g2 (resolve (cwd (example_fs\<lparr>clock := 2\<rparr>)) ''/out'' @ [''litex_core.v''])"
    by blast
  have c: "cwd (example_fs\<lparr>clock := 2\<rparr>) = cwd example_fs" by simp
  have eq': "nodes g2 [''out'', ''litex_core.v''] = nodes g1 [''work'', ''build'', ''litex_core.v'']"
    using eq unfolding c example_paths by simp
  have n1': "nodes g1 [''work'', ''build'', ''litex_core.v''] =
        Some (File ''top_usb sys_rst sys_clk clk12 clk48 usb wb irq_gpio irq_timer0 irq_usb'')"
    using n1 unfolding example_paths by (simp add: example_text_wishbone)
  from g1 g2 n1' eq' have ex: "\<exists>g1 g2.
      generate example_ext (example_args ''wishbone'') ''build'' example_fs = Inr g1 \<and>
      generate (with_registry_order rev example_ext) (example_args ''wishbone'') ''/out''
        (example_fs\<lparr>clock := 2\<rparr>) = Inr g2 \<and>
      nodes g1 [''work'', ''build'', ''litex_core.v''] =
        Some (File ''top_usb sys_rst sys_clk clk12 clk48 usb wb irq_gpio irq_timer0 irq_usb'') \<and>
      nodes g2 [''out'', ''litex_core.v''] = nodes g1 [''work'', ''build'', ''litex_core.v'']"
    by blast
  from h1 h3 ne run' ex show ?thesis by (intro conjI)
qed

text \<open>
  C9, as stated, fails: the artifact is the emitter's text, and the emitter of the
  hardware-description library reads the clock (it prints a date banner). With an
  emitter that stamps its text with the clock reading, two runs of the same
  configuration into the same directory of the same file system, at clock readings 1
  and 2, both succeed and write different bytes.
\<close>

theorem artifacts_differ_by_clock:
  "\<exists>g1 g2.
     generate stamping_ext (example_args ''wishbone'') ''build'' example_fs = Inr g1 \<and>
     generate stamping_ext (example_args ''wishbone'') ''build''
       (example_fs\<lparr>clock := 2\<rparr>) = Inr g2 \<and>
     nodes g1 [''work'', ''build'', ''litex_core.v''] = Some (File ''top_usb |'') \<and>
     nodes g2 [''work'', ''build'', ''litex_core.v''] = Some (File ''top_usb ||'') \<and>
     nodes g1 [''work'', ''build'', ''litex_core.v''] \<noteq>
     nodes g2 [''work'', ''build'', ''litex_core.v'']"
proof -
  have fs1: "example_fs\<lparr>clock := 1\<rparr> = example_fs" by (simp add: example_fs_def)
  from stamping_runs [of 1] obtain g1 where
    g1: "generate stamping_ext (example_args ''wishbone'') ''build'' example_fs = Inr g1"
    and m1: "nodes g1 [''work'', ''build'', ''litex_core.v''] =
         Some (File (get_verilog stamping_ext example_soc_wishbone ''top_usb'' 1))"
    unfolding fs1 by blast
  from stamping_runs [of 2] obtain g2 where
    g2: "generate stamping_ext (example_args ''wishbone'') ''build''
       (example_fs\<lparr>clock := 2\<rparr>) = Inr g2"
    and m2: "nodes g2 [''work'', ''build'', ''litex_core.v''] =
         Some (File (get_verilog stamping_ext example_soc_wishbone ''top_usb'' 2))"
    by blast
  have n1: "nodes g1 [''work'', ''build'', ''litex_core.v''] = Some (File ''top_usb |'')"
    using m1 unfolding stamping_text .
  have n2: "nodes g2 [''work'', ''build'', ''litex_core.v''] = Some (File ''top_usb ||'')"
    using m2 unfolding stamping_text .
  have ne: "nodes g1 [''work'', ''build'', ''litex_core.v''] \<noteq>
     nodes g2 [''work'', ''build'', ''litex_core.v'']"
    unfolding n1 n2 by simp
  from g1 g2 n1 n2 ne show ?thesis by blast
qed

subsection \<open>Uniqueness of pin identities\<close>

lemma add_extension_Inr:
  "add_extension p0 gs = Inr p \<Longrightarrow>
     p = p0\<lparr>groups := groups p0 @ gs\<rparr> \<and>
     (distinct (map ident (groups p0)) \<longrightarrow> distinct (map ident (groups p0 @ gs)))"
proof (induction gs arbitrary: p0)
  case Nil
  then show ?case by simp
next
  case (Cons g gs)
  from Cons.prems obtain p1 where ag: "add_group p0 g = Inr p1"
    and rest: "add_extension p1 gs = Inr p"
    by (auto split: sum.splits)
  from ag have fresh: "ident g \<notin> set (map ident (groups p0))"
    and p1: "p1 = p0\<lparr>groups := groups p0 @ [g]\<rparr>"
    by (auto simp: add_group_def split: if_splits)
  from Cons.IH [OF rest] fresh show ?case
    by (auto simp: p1)
qed

lemma add_extension_ok:
  "distinct (map ident gs) \<Longrightarrow> set (map ident gs) \<inter> set (map ident (groups p0)) = {} \<Longrightarrow>
     \<exists>p. add_extension p0 gs = Inr p"
proof (induction gs arbitrary: p0)
  case Nil
  then show ?case by simp
next
  case (Cons g gs)
  let ?p1 = "p0\<lparr>groups := groups p0 @ [g]\<rparr>"
  have ag: "add_group p0 g = Inr ?p1"
    using Cons.prems(2) by (auto simp: add_group_def)
  have "\<exists>p. add_extension ?p1 gs = Inr p"
  proof (rule Cons.IH)
    show "distinct (map ident gs)" using Cons.prems(1) by simp
    show "set (map ident gs) \<inter> set (map ident (groups ?p1)) = {}"
      using Cons.prems by auto
  qed
  with ag show ?case by simp
qed

text \<open>
  C5. On a platform built from a catalog with unique identities: registering a list
  of groups with fresh, distinct identities succeeds; after N successful registrations
  the platform resolves exactly N plus the catalog size identities, namely those that
  \<open>request\<close> answers; and registering again any identity of the catalog or of a group
  registered since fails with \<open>DuplicatePin\<close>, whatever follows it in the list.
\<close>

theorem pin_uniqueness:
  assumes "distinct (map ident cat)"
    and "add_extension (Platform cat) gs = Inr p"
  shows
    "card (resolvable p) = length gs + length cat \<and>
     (\<forall>n i. (n, i) \<in> resolvable p \<longleftrightarrow> (\<exists>q r. request p n i = Inr (q, r))) \<and>
     (\<forall>g\<in>set (cat @ gs). \<forall>g' more. ident g' = ident g \<longrightarrow>
        add_group p g' = Inl (DuplicatePin (fst g') (fst (snd g'))) \<and>
        add_extension p (g' # more) = Inl (DuplicatePin (fst g') (fst (snd g')))) \<and>
     (\<forall>more. distinct (map ident more) \<and> set (map ident more) \<inter> resolvable p = {} \<longrightarrow>
        (\<exists>p'. add_extension p more = Inr p'))"
proof -
  from add_extension_Inr [OF assms(2)] assms(1)
  have g: "groups p = cat @ gs" and d: "distinct (map ident (cat @ gs))"
    by (simp_all add: Platform_def)
  have "card (resolvable p) = length (map ident (cat @ gs))"
    unfolding resolvable_def g using d by (rule distinct_card)
  then have c: "card (resolvable p) = length gs + length cat" by simp
  have r: "\<forall>n i. (n, i) \<in> resolvable p \<longleftrightarrow> (\<exists>q r. request p n i = Inr (q, r))"
    using request_resolvable by blast
  have dup: "\<forall>g\<in>set (cat @ gs). \<forall>g' more. ident g' = ident g \<longrightarrow>
        add_group p g' = Inl (DuplicatePin (fst g') (fst (snd g'))) \<and>
        add_extension p (g' # more) = Inl (DuplicatePin (fst g') (fst (snd g')))"
  proof (intro ballI allI impI)
    fix g g' more assume m: "g \<in> set (cat @ gs)" and i: "ident g' = ident g"
    then have "ident g' \<in> set (map ident (groups p))"
      unfolding g by (auto simp: image_iff)
    then have "add_group p g' = Inl (DuplicatePin (fst g') (fst (snd g')))"
      by (simp add: add_group_def)
    then show "add_group p g' = Inl (DuplicatePin (fst g') (fst (snd g'))) \<and>
        add_extension p (g' # more) = Inl (DuplicatePin (fst g') (fst (snd g')))"
      by simp
  qed
  have more: "\<forall>more. distinct (map ident more) \<and> set (map ident more) \<inter> resolvable p = {} \<longrightarrow>
        (\<exists>p'. add_extension p more = Inr p')"
    using add_extension_ok by (auto simp: resolvable_def)
  from c r dup more show ?thesis by blast
qed

theorem pin_uniqueness_witness:
  "distinct (map ident io) \<and>
   add_extension (Platform io)
     [(''wb'', 0, [Subsignal ''ack'' (Pins 1)]), (''irq_usb'', 0, [Plain (Pins 1)])] =
     Inr \<lparr>groups = io @ [(''wb'', 0, [Subsignal ''ack'' (Pins 1)]),
                          (''irq_usb'', 0, [Plain (Pins 1)])],
          requested = []\<rparr> \<and>
   card (resolvable \<lparr>groups = io @ [(''wb'', 0, [Subsignal ''ack'' (Pins 1)]),
                          (''irq_usb'', 0, [Plain (Pins 1)])],
          requested = []\<rparr>) = 7 \<and>
   add_group \<lparr>groups = io @ [(''wb'', 0, [Subsignal ''ack'' (Pins 1)]),
                          (''irq_usb'', 0, [Plain (Pins 1)])],
          requested = []\<rparr> (''irq_usb'', 0, [Plain (Pins 8)]) = Inl (DuplicatePin ''irq_usb'' 0) \<and>
   add_group \<lparr>groups = io @ [(''wb'', 0, [Subsignal ''ack'' (Pins 1)]),
                          (''irq_usb'', 0, [Plain (Pins 1)])],
          requested = []\<rparr> (''usb'', 0, []) = Inl (DuplicatePin ''usb'' 0)"
proof -
  let ?gs = "[(''wb'', 0::nat, [Subsignal ''ack'' (Pins 1)]), (''irq_usb'', 0, [Plain (Pins 1)])]"
  let ?p = "\<lparr>groups = io @ ?gs, requested = []\<rparr>"
  have h1: "distinct (map ident io)"
    by (simp add: io_def ident_def)
  have h2: "add_extension (Platform io) ?gs = Inr ?p"
    by (simp add: Platform_def add_group_def io_def ident_def)
  note u = pin_uniqueness [OF h1 h2]
  have len: "length ?gs + length io = 7" by (simp add: io_def)
  from u len have c: "card (resolvable ?p) = 7" by simp
  have m1: "(''irq_usb'', 0::nat, [Plain (Pins 1)]) \<in> set (io @ ?gs)" by simp
  have m2: "(''usb'', 0::nat, [Subsignal ''d_p'' (Pins 1), Subsignal ''d_n'' (Pins 1),
      Subsignal ''pullup'' (Pins 1)]) \<in> set (io @ ?gs)" by (simp add: io_def)
  from u m1 have a1: "add_group ?p (''irq_usb'', 0, [Plain (Pins 8)]) = Inl (DuplicatePin ''irq_usb'' 0)"
    by (fastforce simp: ident_def)
  from u m2 have a2: "add_group ?p (''usb'', 0, []) = Inl (DuplicatePin ''usb'' 0)"
    by (fastforce simp: ident_def)
  from h1 h2 c a1 a2 show ?thesis by simp
qed


end
